theory Spec2Isabelle
  imports Main "HOL-Library.Sublist" "HOL-Library.Word"
begin

section \<open>Errors\<close>

text \<open>
  The service reports failures as gRPC status errors (\<^verbatim>\<open>status.Error\<close>,
  \<^verbatim>\<open>status.Errorf\<close>) carrying a code and a message. Errors of the operating
  system and of the JSON packages are different Go values; they are kept apart here, so
  that a function handing one of them on unchanged is visible in its result.
\<close>

datatype code = NotFound | Internal

datatype errno = ENOENT | EACCES | EISDIR | ENOTDIR | EIO | ENOSPC

datatype error =
    Status code string
  | PathError string string errno
  | SyntaxError string
  | MarshalerError error
  | Other string

fun code_name :: "code \<Rightarrow> string" where
  "code_name NotFound = ''NotFound''"
| "code_name Internal = ''Internal''"

fun errno_text :: "errno \<Rightarrow> string" where
  "errno_text ENOENT = ''no such file or directory''"
| "errno_text EACCES = ''permission denied''"
| "errno_text EISDIR = ''is a directory''"
| "errno_text ENOTDIR = ''not a directory''"
| "errno_text EIO = ''input/output error''"
| "errno_text ENOSPC = ''no space left on device''"

text \<open>The text of \<^verbatim>\<open>err.Error()\<close>, which the format verb \<^verbatim>\<open>%v\<close> prints.\<close>

fun Error :: "error \<Rightarrow> string" where
  "Error (Status c m) = ''rpc error: code = '' @ code_name c @ '' desc = '' @ m"
| "Error (PathError op p e) = op @ '' '' @ p @ '': '' @ errno_text e"
| "Error (SyntaxError m) = m"
| "Error (MarshalerError e) = ''json: error calling MarshalJSON: '' @ Error e"
| "Error (Other m) = m"

section \<open>Paths: \<^verbatim>\<open>path.Clean\<close> and \<^verbatim>\<open>path.Join\<close>\<close>

text \<open>
  \<^verbatim>\<open>path.Clean\<close> scans its argument once. \<open>out\<close> is the text written so far and
  \<open>dotdot\<close> the length of its part that a \<^verbatim>\<open>..\<close> element may not remove. The four
  cases of the loop are the four cases of the Go \<^verbatim>\<open>switch\<close>, in its order.
\<close>

definition elem_end :: "string \<Rightarrow> bool" where
  "elem_end r = (case r of [] \<Rightarrow> True | c # _ \<Rightarrow> c = CHR ''/'')"

text \<open>Dropping the last element of \<open>out\<close>: one byte, then back to the last slash.\<close>

fun backtrack :: "string \<Rightarrow> nat \<Rightarrow> nat \<Rightarrow> nat" where
  "backtrack out dotdot 0 = 0"
| "backtrack out dotdot (Suc w) =
     (if Suc w > dotdot \<and> out ! Suc w \<noteq> CHR ''/'' then backtrack out dotdot w else Suc w)"

function clean_loop :: "bool \<Rightarrow> string \<Rightarrow> string \<Rightarrow> nat \<Rightarrow> string" where
  "clean_loop rooted [] out dotdot = out"
| "clean_loop rooted (c # r) out dotdot =
     (if c = CHR ''/'' then clean_loop rooted r out dotdot
      else if c = CHR ''.'' \<and> elem_end r then clean_loop rooted r out dotdot
      else if c = CHR ''.'' \<and> take 1 r = ''.'' \<and> elem_end (drop 1 r) then
        (if length out > dotdot then
           clean_loop rooted (drop 1 r)
             (take (backtrack out dotdot (length out - 1)) out) dotdot
         else if \<not> rooted then
           (let out' = (if length out > 0 then out @ ''/'' else out) @ ''..''
            in clean_loop rooted (drop 1 r) out' (length out'))
         else clean_loop rooted (drop 1 r) out dotdot)
      else
        (let out' = (if rooted \<and> length out \<noteq> 1 \<or> \<not> rooted \<and> length out \<noteq> 0
                     then out @ ''/'' else out)
         in clean_loop rooted (dropWhile (\<lambda>x. x \<noteq> CHR ''/'') r)
              (out' @ c # takeWhile (\<lambda>x. x \<noteq> CHR ''/'') r) dotdot))"
  by pat_completeness auto
termination
proof (relation "measure (\<lambda>(rooted, r, out, dotdot). length r)")
  show "wf (measure (\<lambda>(rooted, r, out, dotdot). length r))"
    by simp
next
  fix rooted :: bool and c :: char and r out :: string and dotdot :: nat and x :: string
  show "((rooted, dropWhile (\<lambda>x. x \<noteq> CHR ''/'') r, x @ c # takeWhile (\<lambda>x. x \<noteq> CHR ''/'') r, dotdot),
         (rooted, c # r, out, dotdot)) \<in> measure (\<lambda>(rooted, r, out, dotdot). length r)"
    by (simp add: length_dropWhile_le le_imp_less_Suc)
qed auto

definition Clean :: "string \<Rightarrow> string" where
  "Clean p =
     (if p = [] then ''.''
      else let rooted = (hd p = CHR ''/'');
               out = clean_loop rooted p (if rooted then ''/'' else []) (if rooted then 1 else 0)
           in if out = [] then ''.'' else out)"

text \<open>
  \<^verbatim>\<open>path.Join\<close> ignores leading empty elements, puts a slash between the others and
  cleans the result; with no non-empty element the result is empty.
\<close>

fun join_with_slash :: "string list \<Rightarrow> string" where
  "join_with_slash [] = []"
| "join_with_slash [e] = e"
| "join_with_slash (e # es) = e @ ''/'' @ join_with_slash es"

definition path_Join :: "string list \<Rightarrow> string" where
  "path_Join elem =
     (case dropWhile (\<lambda>e. e = []) elem of
        [] \<Rightarrow> []
      | es \<Rightarrow> Clean (join_with_slash es))"

section \<open>Regular expressions: \<^verbatim>\<open>regexp.MatchString\<close>\<close>

text \<open>
  The part of Go's regular expressions that the service uses. The subject is read
  bytewise. A literal holds the UTF-8 encodings of the runes it matches: under the flag
  \<^verbatim>\<open>(?i)\<close> these are the runes of its case-folding orbit, which for \<^verbatim>\<open>s\<close> and
  \<^verbatim>\<open>k\<close> has a third member outside ASCII (U+017F and U+212A).
\<close>

datatype regex =
    EmptyMatch
  | Literal "string list"
  | CharClass "char \<Rightarrow> bool"
  | BeginText
  | EndText
  | Concat regex regex
  | Alternate regex regex
  | Quest regex
  | Star regex

text \<open>All positions reachable from \<open>js\<close> in at most \<open>n\<close> steps of \<open>f\<close>.\<close>

fun iter_close :: "(nat \<Rightarrow> nat list) \<Rightarrow> nat \<Rightarrow> nat list \<Rightarrow> nat list" where
  "iter_close f 0 js = js"
| "iter_close f (Suc n) js = js @ iter_close f n (concat (map f js))"

text \<open>\<open>rmatch r s i\<close>: the positions where a match of \<open>r\<close> that starts at \<open>i\<close> can end.\<close>

fun rmatch :: "regex \<Rightarrow> string \<Rightarrow> nat \<Rightarrow> nat list" where
  "rmatch EmptyMatch s i = [i]"
| "rmatch (Literal alts) s i =
     map (\<lambda>w. i + length w) (filter (\<lambda>w. take (length w) (drop i s) = w) alts)"
| "rmatch (CharClass P) s i = (if i < length s \<and> P (s ! i) then [Suc i] else [])"
| "rmatch BeginText s i = (if i = 0 then [i] else [])"
| "rmatch EndText s i = (if i = length s then [i] else [])"
| "rmatch (Concat a b) s i = concat (map (\<lambda>j. rmatch b s j) (rmatch a s i))"
| "rmatch (Alternate a b) s i = rmatch a s i @ rmatch b s i"
| "rmatch (Quest a) s i = rmatch a s i @ [i]"
| "rmatch (Star a) s i = iter_close (\<lambda>j. rmatch a s j) (length s) [i]"

text \<open>\<^verbatim>\<open>MatchString\<close> looks for a match anywhere in the subject.\<close>

definition MatchString :: "regex \<Rightarrow> string \<Rightarrow> bool" where
  "MatchString r s = list_ex (\<lambda>i. rmatch r s i \<noteq> []) [0..<Suc (length s)]"

text \<open>The encodings of the runes that a pattern byte matches under \<^verbatim>\<open>(?i)\<close>.\<close>

definition fold_alts :: "char \<Rightarrow> string list" where
  "fold_alts c =
     (let n = (of_char c :: nat) in
      if c = CHR ''s'' \<or> c = CHR ''S'' then [''s'', ''S'', [CHR 0xC5, CHR 0xBF]]
      else if c = CHR ''k'' \<or> c = CHR ''K'' then [''k'', ''K'', [CHR 0xE2, CHR 0x84, CHR 0xAA]]
      else if 97 \<le> n \<and> n \<le> 122 then [[c], [char_of (n - 32)]]
      else if 65 \<le> n \<and> n \<le> 90 then [[c], [char_of (n + 32)]]
      else [[c]])"

fun lit_i :: "string \<Rightarrow> regex" where
  "lit_i [] = EmptyMatch"
| "lit_i (c # cs) = Concat (Literal (fold_alts c)) (lit_i cs)"

definition is_digit :: "char \<Rightarrow> bool" where
  "is_digit c = (48 \<le> (of_char c :: nat) \<and> (of_char c :: nat) \<le> 57)"

text \<open>
  The pattern of \<^verbatim>\<open>ScanEntry\<close>,
  \<^verbatim>\<open>(?i)^devtmpfs|(?:fuse\..*)|(?:nfs\d?)|overlay$\<close>. Alternation binds weakest, so
  the pattern has four alternatives; \<^verbatim>\<open>^\<close> belongs to the first and \<^verbatim>\<open>$\<close> to the last.
\<close>

definition validFSType_re :: regex where
  "validFSType_re =
     Alternate (Concat BeginText (lit_i ''devtmpfs''))
    (Alternate (Concat (lit_i ''fuse'') (Concat (Literal [''.'']) (Star (CharClass (\<lambda>c. c \<noteq> CHR 0x0A)))))
    (Alternate (Concat (lit_i ''nfs'') (Quest (CharClass is_digit)))
               (Concat (lit_i ''overlay'') EndText)))"

section \<open>The mount table\<close>

text \<open>\<^verbatim>\<open>gofsutil.Entry\<close>, a line of the mount table, and \<^verbatim>\<open>gofsutil.Info\<close>, a resolved mount.\<close>

record Entry =
  Root :: string
  MountPoint :: string
  MountOpts :: "string list"
  FSType :: string
  MountSource :: string

record Info =
  Device :: string
  Path :: string
  Source :: string
  Type :: string
  Opts :: "string list"

definition zero_Info :: Info where
  "zero_Info = \<lparr>Device = [], Path = [], Source = [], Type = [], Opts = []\<rparr>"

text \<open>
  \<^verbatim>\<open>getMountsObj.ScanEntry\<close>. The Go function returns \<open>(info, valid, failed)\<close> and
  writes to the cache it is given; the model returns the cache as well.
\<close>

definition ScanEntry ::
  "Entry \<Rightarrow> (string \<rightharpoonup> Entry) \<Rightarrow> (Info \<times> bool \<times> error option) \<times> (string \<rightharpoonup> Entry)" where
  "ScanEntry entry cache =
     (let validFSType = MatchString validFSType_re (FSType entry);
          sourceHasSlashPrefix = prefix ''/'' (MountSource entry);
          valid = (validFSType \<or> sourceHasSlashPrefix)
      in if \<not> valid then ((zero_Info, valid, None), cache)
         else
           let info = \<lparr>Device = MountSource entry, Path = MountPoint entry,
                       Source = MountSource entry, Type = FSType entry,
                       Opts = MountOpts entry\<rparr>
           in case cache (MountSource entry) of
                Some cachedEntry \<Rightarrow>
                  ((info\<lparr>Source := path_Join [MountPoint cachedEntry, Root entry]\<rparr>, valid, None),
                   cache)
              | None \<Rightarrow> ((info, valid, None), cache(MountSource entry \<mapsto> entry)))"

text \<open>
  Modelled from the spec: the loop that calls \<^verbatim>\<open>ScanEntry\<close> belongs to the mount
  library (\<^verbatim>\<open>gofsutil.FS.GetMounts\<close>), which is not part of the sources. It is a single
  pass over the entries in table order with a cache that starts empty; an entry that
  is not valid is left out, and a failure of the scanner ends the pass. The table it
  reads is a parameter: the entries, or the error of reading them.
\<close>

fun scan_loop :: "Entry list \<Rightarrow> Info list \<Rightarrow> (string \<rightharpoonup> Entry) \<Rightarrow> error + Info list" where
  "scan_loop [] infos cache = Inr infos"
| "scan_loop (e # es) infos cache =
     (case ScanEntry e cache of
        ((i, ok, Some err), cache') \<Rightarrow> Inl err
      | ((i, ok, None), cache') \<Rightarrow>
          if \<not> ok then scan_loop es infos cache' else scan_loop es (infos @ [i]) cache')"

definition GetMounts :: "error + Entry list \<Rightarrow> error + Info list" where
  "GetMounts tbl = (case tbl of Inl err \<Rightarrow> Inl err | Inr es \<Rightarrow> scan_loop es [] Map.empty)"

definition getMounts :: "error + Entry list \<Rightarrow> error + Info list" where
  "getMounts tbl = GetMounts tbl"

text \<open>\<^verbatim>\<open>getVolumeMountPaths\<close>: the loop over the resolved mounts, then the function.\<close>

fun collect_paths :: "string \<Rightarrow> Info list \<Rightarrow> string list \<Rightarrow> string list" where
  "collect_paths mntPath [] mountPaths = mountPaths"
| "collect_paths mntPath (mi # minfo) mountPaths =
     (if Source mi = mntPath then collect_paths mntPath minfo (mountPaths @ [Path mi])
      else collect_paths mntPath minfo mountPaths)"

definition getVolumeMountPaths :: "error + Entry list \<Rightarrow> string \<Rightarrow> string \<Rightarrow> error + string list" where
  "getVolumeMountPaths tbl mntDir volumeID =
     (let mntPath = path_Join [mntDir, volumeID] in
      case getMounts tbl of
        Inl err \<Rightarrow> Inl err
      | Inr minfo \<Rightarrow> Inr (collect_paths mntPath minfo []))"

section \<open>JSON documents\<close>

text \<open>
  JSON text is represented by the value it spells, so that white space and indentation
  are no part of a document. An integer literal is \<open>JInt\<close>; any other number
  literal is \<open>JFloat\<close> with its text.
\<close>

datatype json =
    JNull
  | JBool bool
  | JInt int
  | JFloat string
  | JString string
  | JArray "json list"
  | JObject "(string \<times> json) list"

text \<open>
  The anonymous struct of \<^verbatim>\<open>MarshalJSON\<close> and \<^verbatim>\<open>UnmarshalJSON\<close>, with the fields
  \<^verbatim>\<open>capacity_bytes\<close> and \<^verbatim>\<open>create_request\<close>. A \<^verbatim>\<open>json.RawMessage\<close> that was never
  written is \<open>None\<close>.
\<close>

record volObj =
  CapacityBytes :: "64 word"
  CreateRequest :: "json option"

definition zero_volObj :: volObj where
  "zero_volObj = \<lparr>CapacityBytes = 0, CreateRequest = None\<rparr>"

text \<open>\<^verbatim>\<open>json.Marshal\<close> of the struct: its fields in order, under their tags.\<close>

definition json_Marshal :: "volObj \<Rightarrow> error + json" where
  "json_Marshal obj =
     Inr (JObject [(''capacity_bytes'', JInt (sint (CapacityBytes obj))),
                   (''create_request'', (case CreateRequest obj of None \<Rightarrow> JNull | Some raw \<Rightarrow> raw))])"

text \<open>
  \<^verbatim>\<open>json.Unmarshal\<close> into the struct. A key selects the field whose tag it equals, or
  else the first field whose tag it equals under case folding; other keys are skipped.
  \<^verbatim>\<open>null\<close> leaves an integer field as it is; a value that is no integer of 64 bits is
  a type error, and the first such error is the result once the object has been read.
\<close>

fun fold_strings :: "string \<Rightarrow> string list" where
  "fold_strings [] = [[]]"
| "fold_strings (c # cs) = concat (map (\<lambda>a. map (\<lambda>w. a @ w) (fold_strings cs)) (fold_alts c))"

definition equalFold :: "string \<Rightarrow> string \<Rightarrow> bool" where
  "equalFold name key = (key \<in> set (fold_strings name))"

datatype field = F_CapacityBytes | F_CreateRequest

definition field_tags :: "(string \<times> field) list" where
  "field_tags = [(''capacity_bytes'', F_CapacityBytes), (''create_request'', F_CreateRequest)]"

definition field_for_key :: "string \<Rightarrow> field option" where
  "field_for_key key =
     (case map_of field_tags key of
        Some f \<Rightarrow> Some f
      | None \<Rightarrow> map_option snd (find (\<lambda>(name, f). equalFold name key) field_tags))"

definition type_error :: "string \<Rightarrow> error" where
  "type_error fld = Other (''json: cannot unmarshal value into Go struct field .'' @ fld @ '' of type int64'')"

definition first_error :: "error option \<Rightarrow> error \<Rightarrow> error option" where
  "first_error saved err = (case saved of None \<Rightarrow> Some err | Some e \<Rightarrow> Some e)"

fun decode_fields :: "(string \<times> json) list \<Rightarrow> volObj \<Rightarrow> error option \<Rightarrow> error + volObj" where
  "decode_fields [] obj saved = (case saved of None \<Rightarrow> Inr obj | Some err \<Rightarrow> Inl err)"
| "decode_fields ((key, val) # kvs) obj saved =
     (case field_for_key key of
        None \<Rightarrow> decode_fields kvs obj saved
      | Some F_CreateRequest \<Rightarrow> decode_fields kvs (obj\<lparr>CreateRequest := Some val\<rparr>) saved
      | Some F_CapacityBytes \<Rightarrow>
          (case val of
             JNull \<Rightarrow> decode_fields kvs obj saved
           | JInt n \<Rightarrow>
               if - (2 ^ 63) \<le> n \<and> n < 2 ^ 63
               then decode_fields kvs (obj\<lparr>CapacityBytes := word_of_int n\<rparr>) saved
               else decode_fields kvs obj (first_error saved (type_error ''capacity_bytes''))
           | _ \<Rightarrow> decode_fields kvs obj (first_error saved (type_error ''capacity_bytes''))))"

definition json_Unmarshal :: "json \<Rightarrow> volObj \<Rightarrow> error + volObj" where
  "json_Unmarshal data obj =
     (case data of
        JNull \<Rightarrow> Inr obj
      | JObject kvs \<Rightarrow> decode_fields kvs obj None
      | _ \<Rightarrow> Inl (Other ''json: cannot unmarshal value into Go value of type struct''))"

section \<open>Volume records\<close>

text \<open>
  Modelled from the spec: the message type \<^verbatim>\<open>csi.CreateVolumeRequest\<close> is declared by
  the CSI library, not in the sources. The record has the two fields that the service
  reads, the name and the creation parameters, a mapping from strings to strings.
\<close>

record csi_CreateVolumeRequest =
  Name :: string
  Parameters :: "string \<rightharpoonup> string"

definition zero_CreateVolumeRequest :: csi_CreateVolumeRequest where
  "zero_CreateVolumeRequest = \<lparr>Name = [], Parameters = Map.empty\<rparr>"

text \<open>
  The codec of the protocol, \<^verbatim>\<open>jsonpb\<close>, is a parameter: how a request is written as
  a JSON value, and how a JSON value is read into an existing request, which may change
  the request also when it fails.
\<close>

record jsonpb =
  pb_Marshal :: "csi_CreateVolumeRequest \<Rightarrow> error + json"
  pb_Unmarshal :: "json \<Rightarrow> csi_CreateVolumeRequest \<Rightarrow> csi_CreateVolumeRequest \<times> error option"

text \<open>\<^verbatim>\<open>jsonpb.Unmarshal\<close> reads from a reader; with nothing to read the result is \<^verbatim>\<open>io.EOF\<close>.\<close>

definition jsonpb_Unmarshal ::
  "jsonpb \<Rightarrow> json option \<Rightarrow> csi_CreateVolumeRequest \<Rightarrow> csi_CreateVolumeRequest \<times> error option" where
  "jsonpb_Unmarshal P rdr req =
     (case rdr of None \<Rightarrow> (req, Some (Other ''EOF'')) | Some raw \<Rightarrow> pb_Unmarshal P raw req)"

record volumeInfo =
  CreateVolumeRequest :: csi_CreateVolumeRequest
  capacityBytes :: "64 word"
  path :: string
  infoPath :: string

definition MarshalJSON :: "jsonpb \<Rightarrow> volumeInfo \<Rightarrow> error + json" where
  "MarshalJSON P v =
     (case pb_Marshal P (CreateVolumeRequest v) of
        Inl err \<Rightarrow> Inl (Status Internal (''failed to marshal create request: '' @ Error err))
      | Inr buf \<Rightarrow> json_Marshal \<lparr>CapacityBytes = capacityBytes v, CreateRequest = Some buf\<rparr>)"

text \<open>\<^verbatim>\<open>UnmarshalJSON\<close> returns the record as it leaves it, and the error.\<close>

definition UnmarshalJSON :: "jsonpb \<Rightarrow> json \<Rightarrow> volumeInfo \<Rightarrow> volumeInfo \<times> error option" where
  "UnmarshalJSON P data v =
     (case json_Unmarshal data zero_volObj of
        Inl err \<Rightarrow> (v, Some (Status Internal (''failed to unmarshal volume: '' @ Error err)))
      | Inr obj \<Rightarrow>
          (case jsonpb_Unmarshal P (CreateRequest obj) (CreateVolumeRequest v) of
             (req, Some err) \<Rightarrow>
               (v\<lparr>CreateVolumeRequest := req\<rparr>,
                Some (Status Internal (''failed to unmarshal create request: '' @ Error err)))
           | (req, None) \<Rightarrow>
               (v\<lparr>CreateVolumeRequest := req, capacityBytes := CapacityBytes obj\<rparr>, None)))"

section \<open>The file system\<close>

text \<open>
  What exists under each path, and the system calls that fail. A file holds the JSON
  document that its bytes spell, or \<open>None\<close> when they spell none (an empty or
  malformed file). Every cause of failure that \<open>nodes\<close> does not record (permissions,
  a missing parent directory, a full disk) is a \<open>fault\<close>.
\<close>

datatype node = Dir | File "json option"

datatype syscall = SysStat | SysOpen | SysCreate | SysRead | SysWrite

record filesys =
  nodes :: "string \<rightharpoonup> node"
  fault :: "syscall \<Rightarrow> string \<Rightarrow> errno option"

definition os_Stat :: "filesys \<Rightarrow> string \<Rightarrow> error option" where
  "os_Stat fs name =
     (case fault fs SysStat name of
        Some e \<Rightarrow> Some (PathError ''stat'' name e)
      | None \<Rightarrow> (case nodes fs name of None \<Rightarrow> Some (PathError ''stat'' name ENOENT) | Some n \<Rightarrow> None))"

fun os_IsNotExist :: "error \<Rightarrow> bool" where
  "os_IsNotExist (PathError op name e) = (e = ENOENT)"
| "os_IsNotExist err = False"

definition os_Create :: "filesys \<Rightarrow> string \<Rightarrow> error + filesys" where
  "os_Create fs name =
     (case fault fs SysCreate name of
        Some e \<Rightarrow> Inl (PathError ''open'' name e)
      | None \<Rightarrow>
          (case nodes fs name of
             Some Dir \<Rightarrow> Inl (PathError ''open'' name EISDIR)
           | _ \<Rightarrow> Inr (fs\<lparr>nodes := (nodes fs)(name \<mapsto> File None)\<rparr>)))"

definition os_Open :: "filesys \<Rightarrow> string \<Rightarrow> error + node" where
  "os_Open fs name =
     (case fault fs SysOpen name of
        Some e \<Rightarrow> Inl (PathError ''open'' name e)
      | None \<Rightarrow>
          (case nodes fs name of
             None \<Rightarrow> Inl (PathError ''open'' name ENOENT)
           | Some n \<Rightarrow> Inr n))"

text \<open>
  \<^verbatim>\<open>json.Encoder.Encode\<close> asks the record for its document and writes it;
  \<^verbatim>\<open>json.Decoder.Decode\<close> reads the next document and hands it to the record. The
  document \<^verbatim>\<open>null\<close> is stored in the pointer itself and the record is not asked.
\<close>

definition Encoder_Encode :: "jsonpb \<Rightarrow> filesys \<Rightarrow> string \<Rightarrow> volumeInfo \<Rightarrow> error option \<times> filesys" where
  "Encoder_Encode P fs name v =
     (case MarshalJSON P v of
        Inl err \<Rightarrow> (Some (MarshalerError err), fs)
      | Inr doc \<Rightarrow>
          (case fault fs SysWrite name of
             Some e \<Rightarrow> (Some (PathError ''write'' name e), fs)
           | None \<Rightarrow> (None, fs\<lparr>nodes := (nodes fs)(name \<mapsto> File (Some doc))\<rparr>)))"

definition Decoder_Decode ::
  "jsonpb \<Rightarrow> filesys \<Rightarrow> string \<Rightarrow> node \<Rightarrow> volumeInfo \<Rightarrow> volumeInfo \<times> error option" where
  "Decoder_Decode P fs name f v =
     (case fault fs SysRead name of
        Some e \<Rightarrow> (v, Some (PathError ''read'' name e))
      | None \<Rightarrow>
          (case f of
             Dir \<Rightarrow> (v, Some (PathError ''read'' name EISDIR))
           | File None \<Rightarrow> (v, Some (SyntaxError ''invalid character looking for beginning of value''))
           | File (Some JNull) \<Rightarrow> (v, None)
           | File (Some doc) \<Rightarrow> UnmarshalJSON P doc v))"

definition save :: "jsonpb \<Rightarrow> filesys \<Rightarrow> volumeInfo \<Rightarrow> error option \<times> filesys" where
  "save P fs v =
     (if infoPath v = [] then
        (Some (Status Internal ''failed to create volume info file: empty path''), fs)
      else
        (case os_Create fs (infoPath v) of
           Inl err \<Rightarrow>
             (Some (Status Internal
                (''failed to create volume info file: '' @ infoPath v @ '': '' @ Error err)), fs)
         | Inr fs' \<Rightarrow> Encoder_Encode P fs' (infoPath v) v))"

definition load :: "jsonpb \<Rightarrow> filesys \<Rightarrow> volumeInfo \<Rightarrow> volumeInfo \<times> error option" where
  "load P fs v =
     (if infoPath v = [] then
        (v, Some (Status Internal ''failed to load volume info file: empty path''))
      else
        (case os_Open fs (infoPath v) of
           Inl err \<Rightarrow>
             (v, Some (Status Internal
                (''failed to open volume info file: '' @ infoPath v @ '': '' @ Error err)))
         | Inr f \<Rightarrow> Decoder_Decode P fs (infoPath v) f v))"

section \<open>The volume store\<close>

record service =
  bindfs :: string
  data :: string
  dev :: string
  mnt :: string
  vol :: string
  volGlob :: string

definition infoFileName :: string where
  "infoFileName = ''.info.json''"

definition fileExists :: "filesys \<Rightarrow> string \<Rightarrow> bool \<times> error option" where
  "fileExists fs filePath =
     (case os_Stat fs filePath of
        None \<Rightarrow> (True, None)
      | Some err \<Rightarrow> if os_IsNotExist err then (False, None) else (False, Some err))"

definition getVolume :: "jsonpb \<Rightarrow> filesys \<Rightarrow> service \<Rightarrow> string \<Rightarrow> error + volumeInfo" where
  "getVolume P fs s idOrName =
     (let volPath = path_Join [vol s, idOrName] in
      case fileExists fs volPath of
        (False, Some err) \<Rightarrow> Inl (Status NotFound (volPath @ '': '' @ Error err))
      | (False, None) \<Rightarrow> Inl (Status NotFound volPath)
      | (True, _) \<Rightarrow>
          (let volInfoPath = path_Join [volPath, infoFileName] in
           case fileExists fs volInfoPath of
             (False, Some err) \<Rightarrow> Inl (Status NotFound (volInfoPath @ '': '' @ Error err))
           | (False, None) \<Rightarrow> Inl (Status NotFound volInfoPath)
           | (True, _) \<Rightarrow>
               (case load P fs \<lparr>CreateVolumeRequest = zero_CreateVolumeRequest, capacityBytes = 0,
                                path = volPath, infoPath = volInfoPath\<rparr> of
                  (v, Some err) \<Rightarrow> Inl err
                | (v, None) \<Rightarrow> Inr v)))"

section \<open>Notions used in the statements\<close>

text \<open>An entry is relevant when \<^verbatim>\<open>ScanEntry\<close> reports it valid.\<close>

definition relevant :: "Entry \<Rightarrow> bool" where
  "relevant e = fst (snd (fst (ScanEntry e Map.empty)))"

text \<open>The record of an entry with a given resolved source.\<close>

definition info_of :: "Entry \<Rightarrow> string \<Rightarrow> Info" where
  "info_of e src =
     \<lparr>Device = MountSource e, Path = MountPoint e, Source = src, Type = FSType e,
      Opts = MountOpts e\<rparr>"

text \<open>The cache after a run of entries, and the records that the run emits.\<close>

fun cache_after :: "Entry list \<Rightarrow> (string \<rightharpoonup> Entry) \<Rightarrow> (string \<rightharpoonup> Entry)" where
  "cache_after [] cache = cache"
| "cache_after (e # es) cache = cache_after es (snd (ScanEntry e cache))"

fun resolve :: "Entry list \<Rightarrow> (string \<rightharpoonup> Entry) \<Rightarrow> Info list" where
  "resolve [] cache = []"
| "resolve (e # es) cache =
     (if relevant e then [fst (fst (ScanEntry e cache))] else [])
     @ resolve es (snd (ScanEntry e cache))"

text \<open>Lower case in ASCII, for plain case-insensitive comparison.\<close>

definition to_lower :: "char \<Rightarrow> char" where
  "to_lower c =
     (let n = (of_char c :: nat) in if 65 \<le> n \<and> n \<le> 90 then char_of (n + 32) else c)"

text \<open>
  Values for the examples: a codec that writes the name of a request and its parameter
  \<^verbatim>\<open>type\<close>, file systems without faults or with a single one, a service and a
  volume record.
\<close>

definition sample_Unmarshal ::
  "json \<Rightarrow> csi_CreateVolumeRequest \<Rightarrow> csi_CreateVolumeRequest \<times> error option" where
  "sample_Unmarshal doc r =
     (case doc of
        JObject [(a, JString n), (b, JObject kvs)] \<Rightarrow>
          (case kvs of
             [] \<Rightarrow> (r\<lparr>Name := n\<rparr>, None)
           | [(k, JString s)] \<Rightarrow> (r\<lparr>Name := n, Parameters := (Parameters r)(k \<mapsto> s)\<rparr>, None)
           | _ \<Rightarrow> (r, Some (Other ''json: cannot unmarshal into CreateVolumeRequest'')))
      | _ \<Rightarrow> (r, Some (Other ''json: cannot unmarshal into CreateVolumeRequest'')))"

definition sample_codec :: jsonpb where
  "sample_codec =
     \<lparr>pb_Marshal = (\<lambda>r. Inr (JObject
        [(''name'', JString (Name r)),
         (''parameters'', JObject (case Parameters r ''type'' of None \<Rightarrow> [] | Some s \<Rightarrow> [(''type'', JString s)]))])),
      pb_Unmarshal = sample_Unmarshal\<rparr>"

definition no_fault :: "syscall \<Rightarrow> string \<Rightarrow> errno option" where
  "no_fault call name = None"

definition fault_at :: "syscall \<Rightarrow> string \<Rightarrow> errno \<Rightarrow> syscall \<Rightarrow> string \<Rightarrow> errno option" where
  "fault_at c p e call name = (if call = c \<and> name = p then Some e else None)"

definition sample_service :: service where
  "sample_service =
     \<lparr>bindfs = ''bindfs'', data = ''/data'', dev = ''/data/dev'', mnt = ''/data/mnt'',
      vol = ''/vol'', volGlob = ''/vol/*/.info.json''\<rparr>"

definition sample_volume :: volumeInfo where
  "sample_volume =
     \<lparr>CreateVolumeRequest = \<lparr>Name = ''v1'', Parameters = [''type'' \<mapsto> ''fast'']\<rparr>,
      capacityBytes = 1024, path = ''/vol/v1'', infoPath = ''/vol/v1/.info.json''\<rparr>"

section \<open>Properties of the regular expression\<close>

lemma prefix_take_iff: "take (length w) xs = w \<longleftrightarrow> prefix w xs"
  by (metis append_eq_conv_conj prefix_def)

lemma prefix_append_drop:
  "prefix (a @ u) xs \<longleftrightarrow> prefix a xs \<and> prefix u (drop (length a) xs)"
proof
  assume "prefix (a @ u) xs"
  then obtain r where "xs = (a @ u) @ r"
    unfolding prefix_def by blast
  then show "prefix a xs \<and> prefix u (drop (length a) xs)"
    by simp
next
  assume h: "prefix a xs \<and> prefix u (drop (length a) xs)"
  then obtain r1 where r1: "xs = a @ r1"
    unfolding prefix_def by blast
  from h r1 have "prefix u r1"
    by simp
  then obtain r2 where "r1 = u @ r2"
    unfolding prefix_def by blast
  with r1 show "prefix (a @ u) xs"
    by simp
qed

lemma in_fold_strings_Cons:
  "x \<in> set (fold_strings (c # cs)) \<longleftrightarrow>
     (\<exists>a \<in> set (fold_alts c). \<exists>w \<in> set (fold_strings cs). x = a @ w)"
proof -
  have "set (fold_strings (c # cs)) = (\<Union>a\<in>set (fold_alts c). (\<lambda>w. a @ w) ` set (fold_strings cs))"
    by simp
  then show ?thesis
    by (simp only: UN_iff image_iff)
qed

lemma rmatch_Concat_Literal:
  "j \<in> set (rmatch (Concat (Literal alts) r) s i) \<longleftrightarrow>
     (\<exists>a \<in> set alts. prefix a (drop i s) \<and> j \<in> set (rmatch r s (i + length a)))"
proof -
  have "set (rmatch (Concat (Literal alts) r) s i) =
        (\<Union>a \<in> {a \<in> set alts. take (length a) (drop i s) = a}. set (rmatch r s (i + length a)))"
    by simp
  then show ?thesis
    by (simp only: UN_iff mem_Collect_eq Bex_def conj_assoc prefix_take_iff)
qed

lemma lit_step:
  "(prefix a (drop i s) \<and> prefix u (drop (i + length a) s) \<and> j = i + length a + length u) \<longleftrightarrow>
   (prefix (a @ u) (drop i s) \<and> j = i + length (a @ u))"
proof -
  have "drop (length a) (drop i s) = drop (i + length a) s"
    by (simp add: add.commute)
  then show ?thesis
    by (simp add: prefix_append_drop add.assoc)
qed


lemma bex_conj_pull:
  "(\<exists>a \<in> A. P a \<and> (\<exists>u \<in> B. Q a u)) \<longleftrightarrow> (\<exists>a \<in> A. \<exists>u \<in> B. P a \<and> Q a u)"
  by simp

lemma bex_append:
  assumes "\<And>x. x \<in> S \<longleftrightarrow> (\<exists>a\<in>A. \<exists>u\<in>B. x = a @ u)"
  shows "(\<exists>x\<in>S. R x) \<longleftrightarrow> (\<exists>a\<in>A. \<exists>u\<in>B. R (a @ u))"
proof
  assume "\<exists>x\<in>S. R x"
  then obtain x where x: "x \<in> S" "R x" ..
  from x(1) obtain a u where "a \<in> A" "u \<in> B" "x = a @ u"
    unfolding assms by (elim bexE)
  with x(2) show "\<exists>a\<in>A. \<exists>u\<in>B. R (a @ u)"
    by (intro bexI [of _ a] bexI [of _ u]) simp_all
next
  assume "\<exists>a\<in>A. \<exists>u\<in>B. R (a @ u)"
  then obtain a u where au: "a \<in> A" "u \<in> B" "R (a @ u)"
    by (elim bexE)
  then have "a @ u \<in> S"
    unfolding assms by (intro bexI [of _ a] bexI [of _ u]) simp_all
  with au(3) show "\<exists>x\<in>S. R x" ..
qed

lemma rmatch_lit_i:
  "j \<in> set (rmatch (lit_i w) s i) \<longleftrightarrow>
     (\<exists>u \<in> set (fold_strings w). prefix u (drop i s) \<and> j = i + length u)"
proof (induction w arbitrary: i)
  case Nil
  show ?case by simp
next
  case (Cons c cs)
  have "j \<in> set (rmatch (lit_i (c # cs)) s i) \<longleftrightarrow>
        (\<exists>a \<in> set (fold_alts c). prefix a (drop i s) \<and>
           (\<exists>u \<in> set (fold_strings cs). prefix u (drop (i + length a) s) \<and> j = i + length a + length u))"
    unfolding lit_i.simps rmatch_Concat_Literal Cons.IH ..
  also have "\<dots> \<longleftrightarrow> (\<exists>a \<in> set (fold_alts c). \<exists>u \<in> set (fold_strings cs).
                 prefix a (drop i s) \<and> prefix u (drop (i + length a) s) \<and> j = i + length a + length u)"
    by (rule bex_conj_pull)
  also have "\<dots> \<longleftrightarrow> (\<exists>a \<in> set (fold_alts c). \<exists>u \<in> set (fold_strings cs).
                 prefix (a @ u) (drop i s) \<and> j = i + length (a @ u))"
    unfolding lit_step ..
  also have "\<dots> \<longleftrightarrow> (\<exists>x \<in> set (fold_strings (c # cs)). prefix x (drop i s) \<and> j = i + length x)"
    by (rule bex_append [symmetric]) (rule in_fold_strings_Cons)
  finally show ?case .
qed

lemma rmatch_Concat:
  "j \<in> set (rmatch (Concat a b) s i) \<longleftrightarrow> (\<exists>k \<in> set (rmatch a s i). j \<in> set (rmatch b s k))"
  by simp

lemma iter_close_contains: "set js \<subseteq> set (iter_close f n js)"
  by (induction n arbitrary: js) auto

lemma rmatch_Star_self: "i \<in> set (rmatch (Star a) s i)"
  using iter_close_contains [of "[i]" "\<lambda>j. rmatch a s j" "length s"] by simp

lemma rmatch_Quest_self: "i \<in> set (rmatch (Quest a) s i)"
  by simp

lemma sublist_iff_drop: "sublist u s \<longleftrightarrow> (\<exists>i \<le> length s. prefix u (drop i s))"
proof
  assume "sublist u s"
  then obtain ps ss where s: "s = ps @ u @ ss"
    unfolding sublist_def by blast
  then have "length ps \<le> length s" "prefix u (drop (length ps) s)"
    by simp_all
  then show "\<exists>i \<le> length s. prefix u (drop i s)"
    by blast
next
  assume "\<exists>i \<le> length s. prefix u (drop i s)"
  then obtain i ss where "drop i s = u @ ss"
    unfolding prefix_def by blast
  then have "s = take i s @ u @ ss"
    by (metis append_take_drop_id)
  then show "sublist u s"
    unfolding sublist_def by blast
qed

lemma suffix_iff_drop:
  "suffix u s \<longleftrightarrow> (\<exists>i \<le> length s. prefix u (drop i s) \<and> i + length u = length s)"
proof
  assume "suffix u s"
  then obtain ps where s: "s = ps @ u"
    unfolding suffix_def by blast
  then have "length ps \<le> length s" "prefix u (drop (length ps) s)" "length ps + length u = length s"
    by simp_all
  then show "\<exists>i \<le> length s. prefix u (drop i s) \<and> i + length u = length s"
    by blast
next
  assume "\<exists>i \<le> length s. prefix u (drop i s) \<and> i + length u = length s"
  then obtain i ss where i: "i \<le> length s" "drop i s = u @ ss" "i + length u = length s"
    unfolding prefix_def by blast
  have "length (drop i s) = length u"
    using i(1,3) by simp
  with i(2) have "ss = []"
    by simp
  with i(2) have "s = take i s @ u"
    by (metis append_Nil2 append_take_drop_id)
  then show "suffix u s"
    unfolding suffix_def by blast
qed



lemma nonempty_iff_member: "xs \<noteq> [] \<longleftrightarrow> (\<exists>j. j \<in> set xs)"
  by (cases xs) auto

lemma MatchString_iff: "MatchString r s \<longleftrightarrow> (\<exists>i \<le> length s. \<exists>j. j \<in> set (rmatch r s i))"
  by (simp add: MatchString_def list_ex_iff Bex_def less_Suc_eq_le nonempty_iff_member del: upt_Suc)

lemma rmatch_Alternate: "j \<in> set (rmatch (Alternate a b) s i) \<longleftrightarrow> j \<in> set (rmatch a s i) \<or> j \<in> set (rmatch b s i)"
  by simp

lemma ex_rmatch_lit_Concat:
  "(\<exists>j. j \<in> set (rmatch (Concat (lit_i w) r) s i)) \<longleftrightarrow>
   (\<exists>u \<in> set (fold_strings w). prefix u (drop i s) \<and> (\<exists>j. j \<in> set (rmatch r s (i + length u))))"
proof
  assume "\<exists>j. j \<in> set (rmatch (Concat (lit_i w) r) s i)"
  then obtain j k where k: "k \<in> set (rmatch (lit_i w) s i)" and j: "j \<in> set (rmatch r s k)"
    unfolding rmatch_Concat by blast
  from k obtain u where "u \<in> set (fold_strings w)" "prefix u (drop i s)" "k = i + length u"
    unfolding rmatch_lit_i by blast
  with j show "\<exists>u \<in> set (fold_strings w). prefix u (drop i s) \<and> (\<exists>j. j \<in> set (rmatch r s (i + length u)))"
    by blast
next
  assume "\<exists>u \<in> set (fold_strings w). prefix u (drop i s) \<and> (\<exists>j. j \<in> set (rmatch r s (i + length u)))"
  then obtain u j where u: "u \<in> set (fold_strings w)" "prefix u (drop i s)"
    and j: "j \<in> set (rmatch r s (i + length u))"
    by blast
  from u have "i + length u \<in> set (rmatch (lit_i w) s i)"
    unfolding rmatch_lit_i by blast
  with j show "\<exists>j. j \<in> set (rmatch (Concat (lit_i w) r) s i)"
    unfolding rmatch_Concat by blast
qed

lemma alt_begin:
  "(\<exists>j. j \<in> set (rmatch (Concat BeginText r) s i)) \<longleftrightarrow> i = 0 \<and> (\<exists>j. j \<in> set (rmatch r s 0))"
  by (cases "i = 0") simp_all

lemma alt_dot_star:
  "(\<exists>j. j \<in> set (rmatch (Concat (Literal [d]) (Star c)) s k)) \<longleftrightarrow> prefix d (drop k s)"
proof -
  have "\<exists>j. j \<in> set (rmatch (Star c) s (k + length d))"
    using rmatch_Star_self by blast
  then show ?thesis
    unfolding rmatch_Concat_Literal by simp
qed

lemma alt_quest: "\<exists>j. j \<in> set (rmatch (Quest q) s k)"
  using rmatch_Quest_self by blast

lemma alt_end: "(\<exists>j. j \<in> set (rmatch EndText s k)) \<longleftrightarrow> k = length s"
  by simp

lemma prefix_two:
  "prefix u (drop i s) \<and> prefix d (drop (i + length u) s) \<longleftrightarrow> prefix (u @ d) (drop i s)"
proof -
  have "drop (length u) (drop i s) = drop (i + length u) s"
    by (simp add: add.commute)
  then show ?thesis
    by (simp add: prefix_append_drop)
qed

lemma alt1:
  "(\<exists>j. j \<in> set (rmatch (Concat BeginText (lit_i w)) s i)) \<longleftrightarrow>
     i = 0 \<and> (\<exists>u \<in> set (fold_strings w). prefix u s)"
proof -
  have "(\<exists>j. j \<in> set (rmatch (lit_i w) s 0)) \<longleftrightarrow> (\<exists>u \<in> set (fold_strings w). prefix u s)"
    unfolding rmatch_lit_i by auto
  then show ?thesis
    unfolding alt_begin by simp
qed

lemma alt2:
  "(\<exists>j. j \<in> set (rmatch (Concat (lit_i w) (Concat (Literal [d]) (Star c))) s i)) \<longleftrightarrow>
     (\<exists>u \<in> set (fold_strings w). prefix (u @ d) (drop i s))"
  unfolding ex_rmatch_lit_Concat alt_dot_star prefix_two ..

lemma alt3:
  "(\<exists>j. j \<in> set (rmatch (Concat (lit_i w) (Quest q)) s i)) \<longleftrightarrow>
     (\<exists>u \<in> set (fold_strings w). prefix u (drop i s))"
  unfolding ex_rmatch_lit_Concat using alt_quest by blast

lemma alt4:
  "(\<exists>j. j \<in> set (rmatch (Concat (lit_i w) EndText) s i)) \<longleftrightarrow>
     (\<exists>u \<in> set (fold_strings w). prefix u (drop i s) \<and> i + length u = length s)"
  unfolding ex_rmatch_lit_Concat alt_end ..

lemma validFSType_re_at:
  "(\<exists>j. j \<in> set (rmatch validFSType_re s i)) \<longleftrightarrow>
     (i = 0 \<and> (\<exists>u \<in> set (fold_strings ''devtmpfs''). prefix u s))
   \<or> (\<exists>u \<in> set (fold_strings ''fuse''). prefix (u @ ''.'') (drop i s))
   \<or> (\<exists>u \<in> set (fold_strings ''nfs''). prefix u (drop i s))
   \<or> (\<exists>u \<in> set (fold_strings ''overlay''). prefix u (drop i s) \<and> i + length u = length s)"
  unfolding validFSType_re_def rmatch_Alternate ex_disj_distrib alt1 alt2 alt3 alt4 ..




lemma ex_le_split:
  "(\<exists>i\<le>(n::nat). (i = 0 \<and> P) \<or> (\<exists>u\<in>A. Q u i) \<or> (\<exists>u\<in>B. R u i) \<or> (\<exists>u\<in>C. S u i)) \<longleftrightarrow>
   P \<or> (\<exists>u\<in>A. \<exists>i\<le>n. Q u i) \<or> (\<exists>u\<in>B. \<exists>i\<le>n. R u i) \<or> (\<exists>u\<in>C. \<exists>i\<le>n. S u i)"
  using le0 [of n] by blast

lemma validFSType_iff:
  "MatchString validFSType_re t \<longleftrightarrow>
     (\<exists>u \<in> set (fold_strings ''devtmpfs''). prefix u t)
   \<or> (\<exists>u \<in> set (fold_strings ''fuse''). sublist (u @ ''.'') t)
   \<or> (\<exists>u \<in> set (fold_strings ''nfs''). sublist u t)
   \<or> (\<exists>u \<in> set (fold_strings ''overlay''). suffix u t)"
  unfolding MatchString_iff validFSType_re_at ex_le_split sublist_iff_drop suffix_iff_drop ..




lemma char_nat_eq: "(c = d) = ((of_char c :: nat) = of_char d)"
  by simp

lemma to_lower_fold_alts: "to_lower c = q \<Longrightarrow> [c] \<in> set (fold_alts q)"
proof (cases "65 \<le> (of_char c :: nat) \<and> (of_char c :: nat) \<le> 90")
  case True
  assume "to_lower c = q"
  with True have q: "q = char_of ((of_char c :: nat) + 32)"
    by (simp add: to_lower_def Let_def)
  have oq: "(of_char q :: nat) = of_char c + 32"
    unfolding q using True by simp
  have c: "char_of ((of_char q :: nat) - 32) = c"
    unfolding oq by simp
  have s: "q = CHR ''s'' \<longleftrightarrow> c = CHR ''S''"
    unfolding char_nat_eq [of q] char_nat_eq [of c] oq by simp
  have k: "q = CHR ''k'' \<longleftrightarrow> c = CHR ''K''"
    unfolding char_nat_eq [of q] char_nat_eq [of c] oq by simp
  have S: "q \<noteq> CHR ''S''"
    unfolding char_nat_eq [of q] oq using True by simp
  have K: "q \<noteq> CHR ''K''"
    unfolding char_nat_eq [of q] oq using True by simp
  have rng: "97 \<le> (of_char q :: nat) \<and> (of_char q :: nat) \<le> 122"
    unfolding oq using True by simp
  show ?thesis
    unfolding fold_alts_def Let_def using s k S K rng c by auto
next
  case False
  assume "to_lower c = q"
  with False have "q = c"
    by (auto simp: to_lower_def Let_def)
  then show ?thesis
    by (simp add: fold_alts_def Let_def)
qed

lemma map_to_lower_fold_strings: "map to_lower v = p \<Longrightarrow> v \<in> set (fold_strings p)"
proof (induction p arbitrary: v)
  case Nil
  then show ?case by simp
next
  case (Cons q p)
  from Cons.prems obtain c w where v: "v = c # w" "q = to_lower c" "p = map to_lower w"
    by (cases v) auto
  then have "[c] \<in> set (fold_alts q)" "w \<in> set (fold_strings p)"
    using to_lower_fold_alts [of c q] Cons.IH [of w] by simp_all
  then have "\<exists>a \<in> set (fold_alts q). \<exists>u \<in> set (fold_strings p). v = a @ u"
    using v(1) by (intro bexI [of _ "[c]"] bexI [of _ w]) simp_all
  then show ?case
    unfolding in_fold_strings_Cons .
qed

lemma sublist_map_lower:
  assumes "sublist p (map to_lower t)"
  shows "\<exists>u \<in> set (fold_strings p). sublist u t"
proof -
  from assms obtain ps ss where "map to_lower t = ps @ p @ ss"
    unfolding sublist_def by blast
  then obtain t1 v t2 where t: "t = t1 @ v @ t2" and v: "map to_lower v = p"
    by (metis map_eq_append_conv)
  from v have "v \<in> set (fold_strings p)"
    by (rule map_to_lower_fold_strings)
  moreover from t have "sublist v t"
    unfolding sublist_def by blast
  ultimately show ?thesis ..
qed

section \<open>Properties of the mount table scan\<close>

lemma relevant_iff:
  "relevant e \<longleftrightarrow> MatchString validFSType_re (FSType e) \<or> prefix ''/'' (MountSource e)"
  by (simp add: relevant_def ScanEntry_def Let_def)

lemma ScanEntry_irrelevant:
  "\<not> relevant e \<Longrightarrow> ScanEntry e c = ((zero_Info, False, None), c)"
  by (simp add: relevant_iff ScanEntry_def Let_def)

lemma ScanEntry_miss:
  "relevant e \<Longrightarrow> c (MountSource e) = None \<Longrightarrow>
     ScanEntry e c = ((info_of e (MountSource e), True, None), c(MountSource e \<mapsto> e))"
  by (simp add: relevant_iff ScanEntry_def Let_def info_of_def)

lemma ScanEntry_hit:
  "relevant e \<Longrightarrow> c (MountSource e) = Some f \<Longrightarrow>
     ScanEntry e c = ((info_of e (path_Join [MountPoint f, Root e]), True, None), c)"
  by (simp add: relevant_iff ScanEntry_def Let_def info_of_def)

lemma ScanEntry_cases:
  obtains (irrelevant) "\<not> relevant e" "ScanEntry e c = ((zero_Info, False, None), c)"
  | (miss) "relevant e" "c (MountSource e) = None"
      "ScanEntry e c = ((info_of e (MountSource e), True, None), c(MountSource e \<mapsto> e))"
  | (hit) f where "relevant e" "c (MountSource e) = Some f"
      "ScanEntry e c = ((info_of e (path_Join [MountPoint f, Root e]), True, None), c)"
proof (cases "relevant e")
  case False
  then show ?thesis
    using irrelevant ScanEntry_irrelevant by blast
next
  case True
  show ?thesis
  proof (cases "c (MountSource e)")
    case None
    with True show ?thesis
      using miss ScanEntry_miss by blast
  next
    case (Some f)
    with True show ?thesis
      using hit ScanEntry_hit by blast
  qed
qed

lemma scan_loop_resolve: "scan_loop es infos c = Inr (infos @ resolve es c)"
proof (induction es arbitrary: infos c)
  case Nil
  show ?case by simp
next
  case (Cons e es)
  show ?case
    by (cases e c rule: ScanEntry_cases) (simp_all add: Cons.IH)
qed

lemma resolve_append: "resolve (xs @ ys) c = resolve xs c @ resolve ys (cache_after xs c)"
  by (induction xs arbitrary: c) simp_all

lemma cache_after_append: "cache_after (xs @ ys) c = cache_after ys (cache_after xs c)"
  by (induction xs arbitrary: c) simp_all

lemma cache_after_keeps: "c k = Some v \<Longrightarrow> cache_after es c k = Some v"
proof (induction es arbitrary: c)
  case Nil
  then show ?case by simp
next
  case (Cons e es)
  have "snd (ScanEntry e c) k = Some v"
    using Cons.prems by (cases e c rule: ScanEntry_cases) auto
  then show ?case
    by (simp add: Cons.IH)
qed

lemma cache_after_unseen:
  "\<forall>x\<in>set es. relevant x \<longrightarrow> MountSource x \<noteq> k \<Longrightarrow> cache_after es c k = c k"
proof (induction es arbitrary: c)
  case Nil
  then show ?case by simp
next
  case (Cons e es)
  have "snd (ScanEntry e c) k = c k"
    using Cons.prems by (cases e c rule: ScanEntry_cases) auto
  moreover have "cache_after es (snd (ScanEntry e c)) k = snd (ScanEntry e c) k"
    using Cons.prems by (intro Cons.IH) simp
  ultimately show ?case
    by simp
qed

lemma getMounts_resolve: "getMounts (Inr es) = Inr (resolve es Map.empty)"
  by (simp add: getMounts_def GetMounts_def scan_loop_resolve)

lemma collect_paths_filter:
  "collect_paths mntPath minfo acc = acc @ map Path (filter (\<lambda>mi. Source mi = mntPath) minfo)"
  by (induction minfo arbitrary: acc) simp_all

lemma ScanEntry_valid: "fst (snd (fst (ScanEntry e cache))) = relevant e"
  by (cases e cache rule: ScanEntry_cases) simp_all

lemma map_Path_resolve: "map Path (resolve es c) = map MountPoint (filter relevant es)"
proof (induction es arbitrary: c)
  case Nil
  show ?case by simp
next
  case (Cons e es)
  show ?case
    by (cases e c rule: ScanEntry_cases) (simp_all add: Cons.IH info_of_def)
qed

lemma match_tmpfs: "\<not> MatchString validFSType_re ''tmpfs''"
  by code_simp

lemma match_nfs4: "MatchString validFSType_re ''nfs4''"
  by code_simp

lemma match_xnfsx: "MatchString validFSType_re ''xnfsx''"
  by code_simp

lemma match_anchors:
  "\<not> MatchString validFSType_re ''xdevtmpfs''"
  "MatchString validFSType_re ''devtmpfsx''"
  "\<not> MatchString validFSType_re ''overlayx''"
  "MatchString validFSType_re ''xoverlay''"
  "MatchString validFSType_re ''xfuse.x''"
  by code_simp+

section \<open>Bind-mount resolution\<close>

text \<open>
  C1. In a scan of a mount table, let \<open>f\<close> be the first relevant entry with its source
  and \<open>e\<close> a later relevant entry with the same source. The record emitted for
  \<open>e\<close> has the source \<open>join (MountPoint f) (Root e)\<close>, while the record of \<open>f\<close>
  keeps the raw source. Scanning \<open>e\<close> leaves the cache as it is, and the cache holds
  \<open>f\<close> itself under that source, also at the end of the scan.
\<close>

theorem first_seen_mount_anchors_later_entries:
  assumes "relevant f" and "relevant e" and "MountSource e = MountSource f"
    and "\<forall>x\<in>set p1. relevant x \<longrightarrow> MountSource x \<noteq> MountSource f"
  shows "getMounts (Inr (p1 @ f # p2 @ e # post)) =
           Inr (resolve p1 Map.empty
                @ info_of f (MountSource f)
                # resolve p2 (cache_after (p1 @ [f]) Map.empty)
                @ info_of e (path_Join [MountPoint f, Root e])
                # resolve post (cache_after (p1 @ f # p2) Map.empty))
       \<and> cache_after (p1 @ f # p2) Map.empty (MountSource e) = Some f
       \<and> snd (ScanEntry e (cache_after (p1 @ f # p2) Map.empty)) = cache_after (p1 @ f # p2) Map.empty
       \<and> cache_after (p1 @ f # p2 @ e # post) Map.empty (MountSource e) = Some f"
proof -
  let ?c1 = "cache_after p1 Map.empty"
  let ?c2 = "cache_after (p1 @ [f]) Map.empty"
  let ?c3 = "cache_after (p1 @ f # p2) Map.empty"
  have c1: "?c1 (MountSource f) = None"
    using assms(4) by (simp add: cache_after_unseen)
  have f: "ScanEntry f ?c1 = ((info_of f (MountSource f), True, None), ?c1(MountSource f \<mapsto> f))"
    using assms(1) c1 by (rule ScanEntry_miss)
  have c2: "?c2 = ?c1(MountSource f \<mapsto> f)"
    by (simp add: cache_after_append f)
  have c3_eq: "?c3 = cache_after p2 ?c2"
    by (simp add: cache_after_append)
  have c3: "?c3 (MountSource e) = Some f"
    unfolding c3_eq assms(3) by (rule cache_after_keeps) (simp add: c2)
  have e: "ScanEntry e ?c3 = ((info_of e (path_Join [MountPoint f, Root e]), True, None), ?c3)"
    using assms(2) c3 by (rule ScanEntry_hit)
  have res_f: "resolve (f # p2 @ e # post) ?c1 =
                 info_of f (MountSource f) # resolve (p2 @ e # post) ?c2"
    using assms(1) by (simp add: f c2)
  have res_e: "resolve (e # post) ?c3 =
                 info_of e (path_Join [MountPoint f, Root e]) # resolve post ?c3"
    using assms(2) by (simp add: e)
  have "resolve (p1 @ f # p2 @ e # post) Map.empty =
          resolve p1 Map.empty @ info_of f (MountSource f) # resolve p2 ?c2
          @ info_of e (path_Join [MountPoint f, Root e]) # resolve post ?c3"
    by (simp only: resolve_append res_f res_e c3_eq [symmetric] append_Cons)
  moreover have "cache_after (p1 @ f # p2 @ e # post) Map.empty (MountSource e) = Some f"
  proof -
    have "cache_after (p1 @ f # p2 @ e # post) Map.empty = cache_after post ?c3"
      using cache_after_append [of "p1 @ f # p2" "e # post" Map.empty] by (simp add: e)
    then show ?thesis
      using c3 by (simp add: cache_after_keeps)
  qed
  ultimately show ?thesis
    using c3 e by (simp add: getMounts_resolve)
qed

theorem first_seen_mount_anchors_later_entries_witness:
  "relevant \<lparr>Root = ''/'', MountPoint = ''/mnt/vol1'', MountOpts = [''rw''], FSType = ''ext4'', MountSource = ''/dev/sda1''\<rparr>
 \<and> relevant \<lparr>Root = ''/subdir'', MountPoint = ''/published/x'', MountOpts = [''rw''], FSType = ''ext4'', MountSource = ''/dev/sda1''\<rparr>
 \<and> getMounts (Inr [\<lparr>Root = ''/'', MountPoint = ''/mnt/vol1'', MountOpts = [''rw''], FSType = ''ext4'', MountSource = ''/dev/sda1''\<rparr>,
                    \<lparr>Root = ''/subdir'', MountPoint = ''/published/x'', MountOpts = [''rw''], FSType = ''ext4'', MountSource = ''/dev/sda1''\<rparr>])
     = Inr [\<lparr>Device = ''/dev/sda1'', Path = ''/mnt/vol1'', Source = ''/dev/sda1'', Type = ''ext4'', Opts = [''rw'']\<rparr>,
            \<lparr>Device = ''/dev/sda1'', Path = ''/published/x'', Source = ''/mnt/vol1/subdir'', Type = ''ext4'', Opts = [''rw'']\<rparr>]"
proof -
  let ?f = "\<lparr>Root = ''/'', MountPoint = ''/mnt/vol1'', MountOpts = [''rw''], FSType = ''ext4'', MountSource = ''/dev/sda1''\<rparr>"
  let ?e = "\<lparr>Root = ''/subdir'', MountPoint = ''/published/x'', MountOpts = [''rw''], FSType = ''ext4'', MountSource = ''/dev/sda1''\<rparr>"
  have f: "relevant ?f" and e: "relevant ?e"
    by (simp_all add: relevant_iff)
  have j: "path_Join [''/mnt/vol1'', ''/subdir''] = ''/mnt/vol1/subdir''"
    by (simp add: path_Join_def Clean_def elem_end_def)
  show ?thesis
    using f e first_seen_mount_anchors_later_entries [of ?f ?e "[]" "[]" "[]"]
    by (simp add: info_of_def j)
qed

text \<open>
  C2, as amended. Resolving the two entries with source \<^verbatim>\<open>/dev/sda1\<close>, mounted at
  \<^verbatim>\<open>/a\<close> and at \<^verbatim>\<open>/b\<close> with root \<^verbatim>\<open>/\<close>, yields two records: the first keeps
  the source \<^verbatim>\<open>/dev/sda1\<close>, the second has the source \<^verbatim>\<open>/a\<close>.
\<close>

theorem second_bind_mount_resolves_to_first_mount_point:
  "getMounts (Inr [\<lparr>Root = ''/'', MountPoint = ''/a'', MountOpts = o1, FSType = t1, MountSource = ''/dev/sda1''\<rparr>,
                   \<lparr>Root = ''/'', MountPoint = ''/b'', MountOpts = o2, FSType = t2, MountSource = ''/dev/sda1''\<rparr>])
     = Inr [\<lparr>Device = ''/dev/sda1'', Path = ''/a'', Source = ''/dev/sda1'', Type = t1, Opts = o1\<rparr>,
            \<lparr>Device = ''/dev/sda1'', Path = ''/b'', Source = ''/a'', Type = t2, Opts = o2\<rparr>]"
proof -
  let ?f = "\<lparr>Root = ''/'', MountPoint = ''/a'', MountOpts = o1, FSType = t1, MountSource = ''/dev/sda1''\<rparr>"
  let ?e = "\<lparr>Root = ''/'', MountPoint = ''/b'', MountOpts = o2, FSType = t2, MountSource = ''/dev/sda1''\<rparr>"
  have f: "relevant ?f" and e: "relevant ?e"
    by (simp_all add: relevant_iff)
  have j: "path_Join [''/a'', ''/''] = ''/a''"
    by (simp add: path_Join_def Clean_def elem_end_def)
  have 1: "ScanEntry ?f Map.empty = ((info_of ?f ''/dev/sda1'', True, None), [''/dev/sda1'' \<mapsto> ?f])"
    using ScanEntry_miss [OF f, of Map.empty] by simp
  have 2: "ScanEntry ?e [''/dev/sda1'' \<mapsto> ?f] =
             ((info_of ?e (path_Join [''/a'', ''/'']), True, None), [''/dev/sda1'' \<mapsto> ?f])"
    using ScanEntry_hit [OF e, of "[''/dev/sda1'' \<mapsto> ?f]" ?f] by simp
  show ?thesis
    using f e by (simp add: getMounts_resolve 1 2 info_of_def j)
qed

text \<open>
  C2 as stated fails: the two records do not both have the source \<^verbatim>\<open>/a\<close>.
\<close>

theorem both_records_resolve_to_first_mount_point_counterexample:
  "getMounts (Inr [\<lparr>Root = ''/'', MountPoint = ''/a'', MountOpts = [], FSType = ''ext4'', MountSource = ''/dev/sda1''\<rparr>,
                   \<lparr>Root = ''/'', MountPoint = ''/b'', MountOpts = [], FSType = ''ext4'', MountSource = ''/dev/sda1''\<rparr>])
     \<noteq> Inr [\<lparr>Device = ''/dev/sda1'', Path = ''/a'', Source = ''/a'', Type = ''ext4'', Opts = []\<rparr>,
            \<lparr>Device = ''/dev/sda1'', Path = ''/b'', Source = ''/a'', Type = ''ext4'', Opts = []\<rparr>]"
proof -
  let ?f = "\<lparr>Root = ''/'', MountPoint = ''/a'', MountOpts = [], FSType = ''ext4'', MountSource = ''/dev/sda1''\<rparr>"
  have f: "relevant ?f"
    by (simp add: relevant_iff)
  have 1: "ScanEntry ?f Map.empty = ((info_of ?f ''/dev/sda1'', True, None), [''/dev/sda1'' \<mapsto> ?f])"
    using ScanEntry_miss [OF f, of Map.empty] by simp
  show ?thesis
    using f by (simp add: getMounts_resolve 1 info_of_def)
qed

section \<open>The mount-point query\<close>

text \<open>
  C7. When the mount table is read, the query returns the paths of exactly those
  resolved records whose source is \<open>join M V\<close>, in table order; when no record has
  that source the result is the empty list, and no error.
\<close>

theorem mount_paths_are_paths_of_matching_records:
  assumes "getMounts tbl = Inr minfo"
  shows "getVolumeMountPaths tbl M V =
           Inr (map Path (filter (\<lambda>mi. Source mi = path_Join [M, V]) minfo))
       \<and> ((\<forall>mi\<in>set minfo. Source mi \<noteq> path_Join [M, V]) \<longrightarrow> getVolumeMountPaths tbl M V = Inr [])"
proof -
  have 1: "getVolumeMountPaths tbl M V =
           Inr (map Path (filter (\<lambda>mi. Source mi = path_Join [M, V]) minfo))"
    using assms by (simp add: getVolumeMountPaths_def Let_def collect_paths_filter)
  have "filter (\<lambda>mi. Source mi = path_Join [M, V]) minfo = []"
    if "\<forall>mi\<in>set minfo. Source mi \<noteq> path_Join [M, V]"
    using that by (simp add: filter_empty_conv)
  with 1 show ?thesis
    by simp
qed

theorem mount_paths_are_paths_of_matching_records_witness:
  "getMounts (Inr [\<lparr>Root = ''/'', MountPoint = ''/mnt/vol1'', MountOpts = [''rw''], FSType = ''ext4'', MountSource = ''/dev/sda1''\<rparr>,
                   \<lparr>Root = ''/'', MountPoint = ''/published/x'', MountOpts = [''rw''], FSType = ''ext4'', MountSource = ''/dev/sda1''\<rparr>])
     = Inr [\<lparr>Device = ''/dev/sda1'', Path = ''/mnt/vol1'', Source = ''/dev/sda1'', Type = ''ext4'', Opts = [''rw'']\<rparr>,
            \<lparr>Device = ''/dev/sda1'', Path = ''/published/x'', Source = ''/mnt/vol1'', Type = ''ext4'', Opts = [''rw'']\<rparr>]
 \<and> getVolumeMountPaths
       (Inr [\<lparr>Root = ''/'', MountPoint = ''/mnt/vol1'', MountOpts = [''rw''], FSType = ''ext4'', MountSource = ''/dev/sda1''\<rparr>,
             \<lparr>Root = ''/'', MountPoint = ''/published/x'', MountOpts = [''rw''], FSType = ''ext4'', MountSource = ''/dev/sda1''\<rparr>])
       ''/mnt'' ''vol1'' = Inr [''/published/x'']
 \<and> getVolumeMountPaths
       (Inr [\<lparr>Root = ''/'', MountPoint = ''/mnt/vol1'', MountOpts = [''rw''], FSType = ''ext4'', MountSource = ''/dev/sda1''\<rparr>,
             \<lparr>Root = ''/'', MountPoint = ''/published/x'', MountOpts = [''rw''], FSType = ''ext4'', MountSource = ''/dev/sda1''\<rparr>])
       ''/mnt'' ''vol2'' = Inr []"
proof -
  let ?f = "\<lparr>Root = ''/'', MountPoint = ''/mnt/vol1'', MountOpts = [''rw''], FSType = ''ext4'', MountSource = ''/dev/sda1''\<rparr>"
  let ?e = "\<lparr>Root = ''/'', MountPoint = ''/published/x'', MountOpts = [''rw''], FSType = ''ext4'', MountSource = ''/dev/sda1''\<rparr>"
  let ?r1 = "\<lparr>Device = ''/dev/sda1'', Path = ''/mnt/vol1'', Source = ''/dev/sda1'', Type = ''ext4'', Opts = [''rw'']\<rparr>"
  let ?r2 = "\<lparr>Device = ''/dev/sda1'', Path = ''/published/x'', Source = ''/mnt/vol1'', Type = ''ext4'', Opts = [''rw'']\<rparr>"
  have f: "relevant ?f" and e: "relevant ?e"
    by (simp_all add: relevant_iff)
  have j: "path_Join [''/mnt/vol1'', ''/''] = ''/mnt/vol1''"
    by (simp add: path_Join_def Clean_def elem_end_def)
  have j1: "path_Join [''/mnt'', ''vol1''] = ''/mnt/vol1''"
    by (simp add: path_Join_def Clean_def elem_end_def)
  have j2: "path_Join [''/mnt'', ''vol2''] = ''/mnt/vol2''"
    by (simp add: path_Join_def Clean_def elem_end_def)
  have 1: "ScanEntry ?f Map.empty = ((info_of ?f ''/dev/sda1'', True, None), [''/dev/sda1'' \<mapsto> ?f])"
    using ScanEntry_miss [OF f, of Map.empty] by simp
  have 2: "ScanEntry ?e [''/dev/sda1'' \<mapsto> ?f] =
             ((info_of ?e (path_Join [''/mnt/vol1'', ''/'']), True, None), [''/dev/sda1'' \<mapsto> ?f])"
    using ScanEntry_hit [OF e, of "[''/dev/sda1'' \<mapsto> ?f]" ?f] by simp
  have g: "getMounts (Inr [?f, ?e]) = Inr [?r1, ?r2]"
    using f e by (simp add: getMounts_resolve 1 2 info_of_def j)
  show ?thesis
    using g mount_paths_are_paths_of_matching_records [OF g, of "''/mnt''" "''vol1''"]
      mount_paths_are_paths_of_matching_records [OF g, of "''/mnt''" "''vol2''"]
    by (simp add: j1 j2)
qed

text \<open>
  C8. An error of reading the mount table is the result of \<^verbatim>\<open>getMounts\<close>, and
  the query returns that same error and no list of paths.
\<close>

theorem mount_table_error_is_returned_unchanged:
  "getMounts (Inl err) = Inl err
 \<and> (getMounts tbl = Inl err \<longrightarrow> getVolumeMountPaths tbl M V = Inl err)"
  by (simp add: getVolumeMountPaths_def getMounts_def GetMounts_def Let_def)

theorem mount_table_error_is_returned_unchanged_witness:
  "getMounts (Inl (Other ''open /proc/self/mountinfo: permission denied''))
     = Inl (Other ''open /proc/self/mountinfo: permission denied'')
 \<and> getVolumeMountPaths (Inl (Other ''open /proc/self/mountinfo: permission denied'')) ''/mnt'' ''vol1''
     = Inl (Other ''open /proc/self/mountinfo: permission denied'')"
  using mount_table_error_is_returned_unchanged
    [of "Other ''open /proc/self/mountinfo: permission denied''"
        "Inl (Other ''open /proc/self/mountinfo: permission denied'')" "''/mnt''" "''vol1''"]
  by simp

section \<open>Case-insensitive matching of the four families\<close>

lemma prefix_map_lower:
  assumes "prefix p (map to_lower t)"
  shows "\<exists>u \<in> set (fold_strings p). prefix u t"
proof -
  from assms obtain r where "map to_lower t = p @ r"
    unfolding prefix_def by blast
  then obtain v t2 where t: "t = v @ t2" and v: "map to_lower v = p"
    by (metis map_eq_append_conv)
  from v have "v \<in> set (fold_strings p)"
    by (rule map_to_lower_fold_strings)
  moreover from t have "prefix v t"
    unfolding prefix_def by blast
  ultimately show ?thesis ..
qed

lemma suffix_map_lower:
  assumes "suffix p (map to_lower t)"
  shows "\<exists>u \<in> set (fold_strings p). suffix u t"
proof -
  from assms obtain r where "map to_lower t = r @ p"
    unfolding suffix_def by blast
  then obtain t1 v where t: "t = t1 @ v" and v: "map to_lower v = p"
    by (metis map_eq_append_conv)
  from v have "v \<in> set (fold_strings p)"
    by (rule map_to_lower_fold_strings)
  moreover from t have "suffix v t"
    unfolding suffix_def by blast
  ultimately show ?thesis ..
qed

lemma to_lower_dot: "to_lower c = CHR ''.'' \<Longrightarrow> c = CHR ''.''"
proof (cases "65 \<le> (of_char c :: nat) \<and> (of_char c :: nat) \<le> 90")
  case True
  assume "to_lower c = CHR ''.''"
  with True have "char_of ((of_char c :: nat) + 32) = CHR ''.''"
    by (simp add: to_lower_def Let_def)
  then have "(of_char (char_of ((of_char c :: nat) + 32)) :: nat) = of_char (CHR ''.'')"
    by simp
  with True show ?thesis
    by simp
next
  case False
  assume "to_lower c = CHR ''.''"
  with False show ?thesis
    by (auto simp: to_lower_def Let_def)
qed

lemma sublist_map_lower_dot:
  assumes "sublist (p @ ''.'') (map to_lower t)"
  shows "\<exists>u \<in> set (fold_strings p). sublist (u @ ''.'') t"
proof -
  from assms obtain ps ss where "map to_lower t = ps @ (p @ ''.'') @ ss"
    unfolding sublist_def by blast
  then obtain t1 v t2 where t: "t = t1 @ v @ t2" and v: "map to_lower v = p @ ''.''"
    by (metis map_eq_append_conv)
  from v obtain u w where vw: "v = u @ w" and u: "map to_lower u = p" and w: "map to_lower w = ''.''"
    by (metis map_eq_append_conv)
  from w obtain c where c: "w = [c]" "to_lower c = CHR ''.''"
    by (cases w) auto
  then have "w = ''.''"
    using to_lower_dot by simp
  with t vw have "sublist (u @ ''.'') t"
    unfolding sublist_def by blast
  moreover from u have "u \<in> set (fold_strings p)"
    by (rule map_to_lower_fold_strings)
  ultimately show ?thesis ..
qed

lemma valid_with_source_none:
  "fst (snd (fst (ScanEntry (e\<lparr>FSType := t, MountSource := ''none''\<rparr>) cache))) =
     MatchString validFSType_re t"
  by (simp add: ScanEntry_valid relevant_iff)

lemma match_families:
  "MatchString validFSType_re ''devtmpfs''"
  "MatchString validFSType_re ''fuse.sshfs''"
  "MatchString validFSType_re ''nfs''"
  "MatchString validFSType_re ''overlay''"
  by code_simp+

lemma match_upper_case:
  "MatchString validFSType_re ''DevTmpfs''"
  "MatchString validFSType_re ''FUSE.sshfs''"
  "MatchString validFSType_re ''NFS4''"
  "MatchString validFSType_re ''OVERLAY''"
  by code_simp+

lemma match_others:
  "\<not> MatchString validFSType_re ''ext4''"
  "\<not> MatchString validFSType_re ''proc''"
  "\<not> MatchString validFSType_re ''fuse''"
  by code_simp+

section \<open>Which entries are kept\<close>

text \<open>
  C6. \<^verbatim>\<open>ScanEntry\<close> reports an entry valid exactly when its file system type
  matches the pattern or its source begins with a slash, and the scan keeps exactly the
  valid entries. The types that match are those that begin with \<^verbatim>\<open>devtmpfs\<close>,
  contain \<^verbatim>\<open>fuse.\<close>, contain \<^verbatim>\<open>nfs\<close> or end with \<^verbatim>\<open>overlay\<close>, each in any
  letter case. An entry of type \<^verbatim>\<open>tmpfs\<close> with source \<^verbatim>\<open>tmpfs\<close> is dropped, an entry
  of type \<^verbatim>\<open>nfs4\<close> or \<^verbatim>\<open>NFS4\<close> is kept whatever its source, and an entry of type
  \<^verbatim>\<open>ext4\<close> is kept with the source \<^verbatim>\<open>/real/path\<close> and dropped with a source that is
  no absolute path. With such a source, each of the four families is kept, in lower and
  in upper case, and the types \<^verbatim>\<open>proc\<close> and \<^verbatim>\<open>fuse\<close> are dropped.
\<close>

theorem entry_kept_iff_type_matches_or_source_absolute:
  "fst (snd (fst (ScanEntry e cache))) =
     ((\<exists>u \<in> set (fold_strings ''devtmpfs''). prefix u (FSType e))
    \<or> (\<exists>u \<in> set (fold_strings ''fuse''). sublist (u @ ''.'') (FSType e))
    \<or> (\<exists>u \<in> set (fold_strings ''nfs''). sublist u (FSType e))
    \<or> (\<exists>u \<in> set (fold_strings ''overlay''). suffix u (FSType e))
    \<or> prefix ''/'' (MountSource e))
 \<and> fst (snd (fst (ScanEntry e cache))) =
     (MatchString validFSType_re (FSType e) \<or> prefix ''/'' (MountSource e))
 \<and> (\<exists>infos. getMounts (Inr es) = Inr infos \<and> map Path infos = map MountPoint (filter relevant es))
 \<and> (prefix ''devtmpfs'' (map to_lower (FSType e)) \<longrightarrow> fst (snd (fst (ScanEntry e cache))))
 \<and> (sublist ''fuse.'' (map to_lower (FSType e)) \<longrightarrow> fst (snd (fst (ScanEntry e cache))))
 \<and> (sublist ''nfs'' (map to_lower (FSType e)) \<longrightarrow> fst (snd (fst (ScanEntry e cache))))
 \<and> (suffix ''overlay'' (map to_lower (FSType e)) \<longrightarrow> fst (snd (fst (ScanEntry e cache))))
 \<and> \<not> fst (snd (fst (ScanEntry (e\<lparr>FSType := ''tmpfs'', MountSource := ''tmpfs''\<rparr>) cache)))
 \<and> fst (snd (fst (ScanEntry (e\<lparr>FSType := ''nfs4''\<rparr>) cache)))
 \<and> fst (snd (fst (ScanEntry (e\<lparr>FSType := ''NFS4''\<rparr>) cache)))
 \<and> fst (snd (fst (ScanEntry (e\<lparr>FSType := ''ext4'', MountSource := ''/real/path''\<rparr>) cache)))
 \<and> fst (snd (fst (ScanEntry (e\<lparr>FSType := ''devtmpfs'', MountSource := ''none''\<rparr>) cache)))
 \<and> fst (snd (fst (ScanEntry (e\<lparr>FSType := ''fuse.sshfs'', MountSource := ''none''\<rparr>) cache)))
 \<and> fst (snd (fst (ScanEntry (e\<lparr>FSType := ''nfs'', MountSource := ''none''\<rparr>) cache)))
 \<and> fst (snd (fst (ScanEntry (e\<lparr>FSType := ''overlay'', MountSource := ''none''\<rparr>) cache)))
 \<and> fst (snd (fst (ScanEntry (e\<lparr>FSType := ''DevTmpfs'', MountSource := ''none''\<rparr>) cache)))
 \<and> fst (snd (fst (ScanEntry (e\<lparr>FSType := ''FUSE.sshfs'', MountSource := ''none''\<rparr>) cache)))
 \<and> fst (snd (fst (ScanEntry (e\<lparr>FSType := ''OVERLAY'', MountSource := ''none''\<rparr>) cache)))
 \<and> \<not> fst (snd (fst (ScanEntry (e\<lparr>FSType := ''ext4'', MountSource := ''none''\<rparr>) cache)))
 \<and> \<not> fst (snd (fst (ScanEntry (e\<lparr>FSType := ''proc'', MountSource := ''none''\<rparr>) cache)))
 \<and> \<not> fst (snd (fst (ScanEntry (e\<lparr>FSType := ''fuse'', MountSource := ''none''\<rparr>) cache)))"
proof -
  let ?valid = "fst (snd (fst (ScanEntry e cache)))"
  have m: "?valid = (MatchString validFSType_re (FSType e) \<or> prefix ''/'' (MountSource e))"
    by (simp add: ScanEntry_valid relevant_iff)
  have c: "?valid =
     ((\<exists>u \<in> set (fold_strings ''devtmpfs''). prefix u (FSType e))
    \<or> (\<exists>u \<in> set (fold_strings ''fuse''). sublist (u @ ''.'') (FSType e))
    \<or> (\<exists>u \<in> set (fold_strings ''nfs''). sublist u (FSType e))
    \<or> (\<exists>u \<in> set (fold_strings ''overlay''). suffix u (FSType e))
    \<or> prefix ''/'' (MountSource e))"
    unfolding ScanEntry_valid relevant_iff validFSType_iff by (simp only: disj_assoc)
  have g: "\<exists>infos. getMounts (Inr es) = Inr infos \<and> map Path infos = map MountPoint (filter relevant es)"
    by (simp add: getMounts_resolve map_Path_resolve)
  have i1: "prefix ''devtmpfs'' (map to_lower (FSType e)) \<longrightarrow> ?valid"
    unfolding c using prefix_map_lower [of "''devtmpfs''" "FSType e"] by blast
  have i2: "sublist ''fuse.'' (map to_lower (FSType e)) \<longrightarrow> ?valid"
  proof
    assume "sublist ''fuse.'' (map to_lower (FSType e))"
    then have "sublist (''fuse'' @ ''.'') (map to_lower (FSType e))"
      by simp
    then have "\<exists>u \<in> set (fold_strings ''fuse''). sublist (u @ ''.'') (FSType e)"
      by (rule sublist_map_lower_dot)
    then show ?valid
      unfolding c by blast
  qed
  have i3: "sublist ''nfs'' (map to_lower (FSType e)) \<longrightarrow> ?valid"
    unfolding c using sublist_map_lower [of "''nfs''" "FSType e"] by blast
  have i4: "suffix ''overlay'' (map to_lower (FSType e)) \<longrightarrow> ?valid"
    unfolding c using suffix_map_lower [of "''overlay''" "FSType e"] by blast
  have t: "\<not> fst (snd (fst (ScanEntry (e\<lparr>FSType := ''tmpfs'', MountSource := ''tmpfs''\<rparr>) cache)))"
    by (simp add: ScanEntry_valid relevant_iff match_tmpfs)
  have n: "fst (snd (fst (ScanEntry (e\<lparr>FSType := ''nfs4''\<rparr>) cache)))"
    by (simp add: ScanEntry_valid relevant_iff match_nfs4)
  have N: "fst (snd (fst (ScanEntry (e\<lparr>FSType := ''NFS4''\<rparr>) cache)))"
    by (simp add: ScanEntry_valid relevant_iff match_upper_case)
  have x: "fst (snd (fst (ScanEntry (e\<lparr>FSType := ''ext4'', MountSource := ''/real/path''\<rparr>) cache)))"
    by (simp add: ScanEntry_valid relevant_iff)
  note v = valid_with_source_none [where e = e and cache = cache]
  show ?thesis
    using c m g i1 i2 i3 i4 t n N x
      match_families [folded v] match_upper_case(1,2,4) [folded v] match_others [folded v]
    by (intro conjI) assumption+
qed

theorem entry_kept_iff_type_matches_or_source_absolute_witness:
  "prefix ''devtmpfs'' (map to_lower ''DevTmpfs'')
 \<and> fst (snd (fst (ScanEntry \<lparr>Root = ''/'', MountPoint = ''/dev'', MountOpts = [''rw''], FSType = ''DevTmpfs'',
                               MountSource = ''udev''\<rparr> Map.empty)))
 \<and> sublist ''fuse.'' (map to_lower ''FUSE.sshfs'')
 \<and> fst (snd (fst (ScanEntry \<lparr>Root = ''/'', MountPoint = ''/mnt/s'', MountOpts = [''rw''], FSType = ''FUSE.sshfs'',
                               MountSource = ''host:dir''\<rparr> Map.empty)))
 \<and> sublist ''nfs'' (map to_lower ''NFS4'')
 \<and> fst (snd (fst (ScanEntry \<lparr>Root = ''/'', MountPoint = ''/mnt/n'', MountOpts = [''rw''], FSType = ''NFS4'',
                               MountSource = ''server:/export''\<rparr> Map.empty)))
 \<and> suffix ''overlay'' (map to_lower ''OVERLAY'')
 \<and> fst (snd (fst (ScanEntry \<lparr>Root = ''/'', MountPoint = ''/var/lib/o'', MountOpts = [''rw''], FSType = ''OVERLAY'',
                               MountSource = ''overlay''\<rparr> Map.empty)))"
proof -
  let ?d = "\<lparr>Root = ''/'', MountPoint = ''/dev'', MountOpts = [''rw''], FSType = ''DevTmpfs'', MountSource = ''udev''\<rparr>"
  let ?f = "\<lparr>Root = ''/'', MountPoint = ''/mnt/s'', MountOpts = [''rw''], FSType = ''FUSE.sshfs'', MountSource = ''host:dir''\<rparr>"
  let ?n = "\<lparr>Root = ''/'', MountPoint = ''/mnt/n'', MountOpts = [''rw''], FSType = ''NFS4'', MountSource = ''server:/export''\<rparr>"
  let ?o = "\<lparr>Root = ''/'', MountPoint = ''/var/lib/o'', MountOpts = [''rw''], FSType = ''OVERLAY'', MountSource = ''overlay''\<rparr>"
  have l: "map to_lower ''DevTmpfs'' = ''devtmpfs''" "map to_lower ''FUSE.sshfs'' = ''fuse.sshfs''"
    "map to_lower ''NFS4'' = ''nfs4''" "map to_lower ''OVERLAY'' = ''overlay''"
    by code_simp+
  have hd: "prefix ''devtmpfs'' (map to_lower ''DevTmpfs'')"
    unfolding l by simp
  have "''fuse.sshfs'' = [] @ ''fuse.'' @ ''sshfs''"
    by simp
  then have hf: "sublist ''fuse.'' (map to_lower ''FUSE.sshfs'')"
    unfolding l sublist_def by blast
  have "''nfs4'' = [] @ ''nfs'' @ ''4''"
    by simp
  then have hn: "sublist ''nfs'' (map to_lower ''NFS4'')"
    unfolding l sublist_def by blast
  have ho: "suffix ''overlay'' (map to_lower ''OVERLAY'')"
    unfolding l by simp
  have d: "prefix ''devtmpfs'' (map to_lower (FSType ?d)) \<longrightarrow> fst (snd (fst (ScanEntry ?d Map.empty)))"
    using entry_kept_iff_type_matches_or_source_absolute [of ?d Map.empty "[]"] by (elim conjE)
  have f: "sublist ''fuse.'' (map to_lower (FSType ?f)) \<longrightarrow> fst (snd (fst (ScanEntry ?f Map.empty)))"
    using entry_kept_iff_type_matches_or_source_absolute [of ?f Map.empty "[]"] by (elim conjE)
  have n: "sublist ''nfs'' (map to_lower (FSType ?n)) \<longrightarrow> fst (snd (fst (ScanEntry ?n Map.empty)))"
    using entry_kept_iff_type_matches_or_source_absolute [of ?n Map.empty "[]"] by (elim conjE)
  have o: "suffix ''overlay'' (map to_lower (FSType ?o)) \<longrightarrow> fst (snd (fst (ScanEntry ?o Map.empty)))"
    using entry_kept_iff_type_matches_or_source_absolute [of ?o Map.empty "[]"] by (elim conjE)
  from d f n o hd hf hn ho show ?thesis
    by simp
qed

text \<open>
  C9. The pattern has four alternatives, of which only the first is tied to the start
  of the type and only the last to its end: an entry is valid exactly when its type
  begins with \<^verbatim>\<open>devtmpfs\<close>, contains \<^verbatim>\<open>fuse.\<close>, contains \<^verbatim>\<open>nfs\<close> or ends with
  \<^verbatim>\<open>overlay\<close>, each up to case folding, or its source begins with a slash. So every
  entry whose type contains \<^verbatim>\<open>nfs\<close> in any letter case is kept, for example the type
  \<^verbatim>\<open>xnfsx\<close> with any source, while \<^verbatim>\<open>xdevtmpfs\<close> and \<^verbatim>\<open>overlayx\<close> do not match.
\<close>

theorem type_containing_nfs_is_kept:
  "fst (snd (fst (ScanEntry e cache))) =
     ((\<exists>u \<in> set (fold_strings ''devtmpfs''). prefix u (FSType e))
    \<or> (\<exists>u \<in> set (fold_strings ''fuse''). sublist (u @ ''.'') (FSType e))
    \<or> (\<exists>u \<in> set (fold_strings ''nfs''). sublist u (FSType e))
    \<or> (\<exists>u \<in> set (fold_strings ''overlay''). suffix u (FSType e))
    \<or> prefix ''/'' (MountSource e))
 \<and> (sublist ''nfs'' (map to_lower (FSType e)) \<longrightarrow> fst (snd (fst (ScanEntry e cache))))
 \<and> fst (snd (fst (ScanEntry (e\<lparr>FSType := ''xnfsx''\<rparr>) cache)))
 \<and> \<not> fst (snd (fst (ScanEntry (e\<lparr>FSType := ''xdevtmpfs'', MountSource := ''none''\<rparr>) cache)))
 \<and> fst (snd (fst (ScanEntry (e\<lparr>FSType := ''devtmpfsx''\<rparr>) cache)))
 \<and> \<not> fst (snd (fst (ScanEntry (e\<lparr>FSType := ''overlayx'', MountSource := ''none''\<rparr>) cache)))
 \<and> fst (snd (fst (ScanEntry (e\<lparr>FSType := ''xoverlay''\<rparr>) cache)))"
proof -
  have 1: "fst (snd (fst (ScanEntry e cache))) =
     ((\<exists>u \<in> set (fold_strings ''devtmpfs''). prefix u (FSType e))
    \<or> (\<exists>u \<in> set (fold_strings ''fuse''). sublist (u @ ''.'') (FSType e))
    \<or> (\<exists>u \<in> set (fold_strings ''nfs''). sublist u (FSType e))
    \<or> (\<exists>u \<in> set (fold_strings ''overlay''). suffix u (FSType e))
    \<or> prefix ''/'' (MountSource e))"
    unfolding ScanEntry_valid relevant_iff validFSType_iff by (simp only: disj_assoc)
  have 2: "fst (snd (fst (ScanEntry e cache)))" if "sublist ''nfs'' (map to_lower (FSType e))"
  proof -
    from that have "\<exists>u \<in> set (fold_strings ''nfs''). sublist u (FSType e)"
      by (rule sublist_map_lower)
    then show ?thesis
      unfolding 1 by blast
  qed
  have 3: "fst (snd (fst (ScanEntry (e\<lparr>FSType := t, MountSource := ''none''\<rparr>) cache))) = MatchString validFSType_re t"
    for t
    by (simp add: ScanEntry_valid relevant_iff)
  have 4: "fst (snd (fst (ScanEntry (e\<lparr>FSType := t\<rparr>) cache)))" if "MatchString validFSType_re t" for t
    using that by (simp add: ScanEntry_valid relevant_iff)
  show ?thesis
    using 1 2 3 [of "''xdevtmpfs''"] 3 [of "''overlayx''"] 4 [OF match_xnfsx] 4 [OF match_anchors(2)]
      4 [OF match_anchors(4)] match_anchors(1,3)
    by (intro conjI impI) blast+
qed

theorem type_containing_nfs_is_kept_witness:
  "sublist ''nfs'' (map to_lower ''xNFSx'')
 \<and> fst (snd (fst (ScanEntry \<lparr>Root = ''/'', MountPoint = ''/mnt/x'', MountOpts = [], FSType = ''xNFSx'',
                               MountSource = ''none''\<rparr> Map.empty)))"
proof -
  let ?e = "\<lparr>Root = ''/'', MountPoint = ''/mnt/x'', MountOpts = [], FSType = ''xNFSx'', MountSource = ''none''\<rparr>"
  have "map to_lower ''xNFSx'' = ''xnfsx''"
    by code_simp
  then have "map to_lower ''xNFSx'' = ''x'' @ ''nfs'' @ ''x''"
    by simp
  then have h: "sublist ''nfs'' (map to_lower ''xNFSx'')"
    unfolding sublist_def by blast
  have "sublist ''nfs'' (map to_lower (FSType ?e)) \<longrightarrow> fst (snd (fst (ScanEntry ?e Map.empty)))"
    using type_containing_nfs_is_kept [of ?e Map.empty] by (elim conjE)
  with h show ?thesis
    by simp
qed

section \<open>Properties of volume records\<close>

lemma field_for_key_tags:
  "field_for_key ''capacity_bytes'' = Some F_CapacityBytes"
  "field_for_key ''create_request'' = Some F_CreateRequest"
  by (simp_all add: field_for_key_def field_tags_def)

lemma sint64_range: "- (2 ^ 63) \<le> sint (w :: 64 word) \<and> sint w < 2 ^ 63"
  using sint_ge [of w] sint_lt [of w] by simp

lemma json_roundtrip:
  "json_Unmarshal (JObject [(''capacity_bytes'', JInt (sint c)), (''create_request'', raw)]) zero_volObj
     = Inr \<lparr>CapacityBytes = c, CreateRequest = Some raw\<rparr>"
  using sint64_range [of c]
  by (simp add: json_Unmarshal_def field_for_key_tags zero_volObj_def)

lemma MarshalJSON_Inr:
  "pb_Marshal P (CreateVolumeRequest v) = Inr buf \<Longrightarrow>
     MarshalJSON P v = Inr (JObject [(''capacity_bytes'', JInt (sint (capacityBytes v))), (''create_request'', buf)])"
  by (simp add: MarshalJSON_def json_Marshal_def)

lemma MarshalJSON_Inl:
  "pb_Marshal P (CreateVolumeRequest v) = Inl err \<Longrightarrow>
     MarshalJSON P v = Inl (Status Internal (''failed to marshal create request: '' @ Error err))"
  by (simp add: MarshalJSON_def)

lemma UnmarshalJSON_own_document:
  assumes "pb_Unmarshal P buf (CreateVolumeRequest v) = (req, None)"
  shows "UnmarshalJSON P (JObject [(''capacity_bytes'', JInt (sint c)), (''create_request'', buf)]) v
           = (v\<lparr>CreateVolumeRequest := req, capacityBytes := c\<rparr>, None)"
  using assms by (simp add: UnmarshalJSON_def json_roundtrip jsonpb_Unmarshal_def)

lemma save_empty_path:
  "infoPath v = [] \<Longrightarrow>
     save P fs v = (Some (Status Internal ''failed to create volume info file: empty path''), fs)"
  by (simp add: save_def)

lemma save_create_fails:
  "infoPath v \<noteq> [] \<Longrightarrow> os_Create fs (infoPath v) = Inl err \<Longrightarrow>
     save P fs v =
       (Some (Status Internal (''failed to create volume info file: '' @ infoPath v @ '': '' @ Error err)), fs)"
  by (simp add: save_def)

lemma save_ok_iff:
  "save P fs v = (None, fs') \<longleftrightarrow>
     infoPath v \<noteq> [] \<and>
     (\<exists>fs1 buf. os_Create fs (infoPath v) = Inr fs1 \<and> pb_Marshal P (CreateVolumeRequest v) = Inr buf
        \<and> fault fs1 SysWrite (infoPath v) = None
        \<and> fs' = fs1\<lparr>nodes := (nodes fs1)(infoPath v \<mapsto>
              File (Some (JObject [(''capacity_bytes'', JInt (sint (capacityBytes v))), (''create_request'', buf)])))\<rparr>)"
  by (auto simp: save_def Encoder_Encode_def MarshalJSON_def json_Marshal_def
      split: sum.splits option.splits)

lemma os_Create_fault: "os_Create fs name = Inr fs1 \<Longrightarrow> fault fs1 = fault fs"
  by (auto simp: os_Create_def split: option.splits node.splits)

lemma load_empty_path:
  "infoPath v = [] \<Longrightarrow>
     load P fs v = (v, Some (Status Internal ''failed to load volume info file: empty path''))"
  by (simp add: load_def)

lemma load_open_fails:
  "infoPath v \<noteq> [] \<Longrightarrow> os_Open fs (infoPath v) = Inl err \<Longrightarrow>
     load P fs v =
       (v, Some (Status Internal (''failed to open volume info file: '' @ infoPath v @ '': '' @ Error err)))"
  by (simp add: load_def)

lemma join_vol_v1: "path_Join [''/vol'', ''v1''] = ''/vol/v1''"
  by (simp add: path_Join_def Clean_def elem_end_def)

lemma join_info_v1: "path_Join [''/vol/v1'', infoFileName] = ''/vol/v1/.info.json''"
  by (simp add: path_Join_def Clean_def elem_end_def infoFileName_def)

section \<open>Decoding a volume record\<close>

text \<open>
  C10. \<^verbatim>\<open>UnmarshalJSON\<close> assigns \<open>capacityBytes\<close> only once the payload
  \<^verbatim>\<open>create_request\<close> has been decoded. When the outer document does not decode, the
  result is an \<open>Internal\<close> error and the record is as before; when the payload does
  not decode, the result is an \<open>Internal\<close> error and \<open>capacityBytes\<close> is as
  before; when both decode, \<open>capacityBytes\<close> is the decoded capacity.
\<close>

theorem capacity_assigned_only_after_request_decodes:
  "(json_Unmarshal doc zero_volObj = Inl err \<longrightarrow>
      UnmarshalJSON P doc v =
        (v, Some (Status Internal (''failed to unmarshal volume: '' @ Error err))))
 \<and> (json_Unmarshal doc zero_volObj = Inr obj
      \<and> jsonpb_Unmarshal P (CreateRequest obj) (CreateVolumeRequest v) = (req, Some err) \<longrightarrow>
      UnmarshalJSON P doc v =
        (v\<lparr>CreateVolumeRequest := req\<rparr>,
         Some (Status Internal (''failed to unmarshal create request: '' @ Error err)))
      \<and> capacityBytes (fst (UnmarshalJSON P doc v)) = capacityBytes v)
 \<and> (json_Unmarshal doc zero_volObj = Inr obj
      \<and> jsonpb_Unmarshal P (CreateRequest obj) (CreateVolumeRequest v) = (req, None) \<longrightarrow>
      UnmarshalJSON P doc v =
        (v\<lparr>CreateVolumeRequest := req, capacityBytes := CapacityBytes obj\<rparr>, None))"
  by (simp add: UnmarshalJSON_def)

theorem capacity_assigned_only_after_request_decodes_witness:
  "UnmarshalJSON sample_codec (JString ''x'') sample_volume =
     (sample_volume,
      Some (Status Internal
        ''failed to unmarshal volume: json: cannot unmarshal value into Go value of type struct''))
 \<and> snd (UnmarshalJSON sample_codec (JObject [(''capacity_bytes'', JInt 5)]) sample_volume) =
     Some (Status Internal ''failed to unmarshal create request: EOF'')
 \<and> capacityBytes (fst (UnmarshalJSON sample_codec (JObject [(''capacity_bytes'', JInt 5)]) sample_volume)) = 1024
 \<and> snd (UnmarshalJSON sample_codec
        (JObject [(''capacity_bytes'', JInt 5),
                  (''create_request'', JObject [(''name'', JString ''v2''), (''parameters'', JObject [])])])
        sample_volume) = None
 \<and> capacityBytes (fst (UnmarshalJSON sample_codec
        (JObject [(''capacity_bytes'', JInt 5),
                  (''create_request'', JObject [(''name'', JString ''v2''), (''parameters'', JObject [])])])
        sample_volume)) = 5"
proof -
  let ?d1 = "JString ''x''"
  let ?d2 = "JObject [(''capacity_bytes'', JInt 5)]"
  let ?raw = "JObject [(''name'', JString ''v2''), (''parameters'', JObject [])]"
  let ?d3 = "JObject [(''capacity_bytes'', JInt 5), (''create_request'', ?raw)]"
  let ?req = "CreateVolumeRequest sample_volume"
  have u1: "json_Unmarshal ?d1 zero_volObj =
              Inl (Other ''json: cannot unmarshal value into Go value of type struct'')"
    by (simp add: json_Unmarshal_def)
  have u2: "json_Unmarshal ?d2 zero_volObj = Inr \<lparr>CapacityBytes = 5, CreateRequest = None\<rparr>"
    by (simp add: json_Unmarshal_def field_for_key_tags zero_volObj_def)
  have p2: "jsonpb_Unmarshal sample_codec None ?req = (?req, Some (Other ''EOF''))"
    by (simp add: jsonpb_Unmarshal_def)
  have u3: "json_Unmarshal ?d3 zero_volObj = Inr \<lparr>CapacityBytes = 5, CreateRequest = Some ?raw\<rparr>"
    by (simp add: json_Unmarshal_def field_for_key_tags zero_volObj_def)
  have p3: "jsonpb_Unmarshal sample_codec (Some ?raw) ?req = (?req\<lparr>Name := ''v2''\<rparr>, None)"
    by (simp add: jsonpb_Unmarshal_def sample_codec_def sample_Unmarshal_def)
  have a: "UnmarshalJSON sample_codec ?d1 sample_volume =
             (sample_volume,
              Some (Status Internal
                (''failed to unmarshal volume: '' @
                 Error (Other ''json: cannot unmarshal value into Go value of type struct''))))"
    using u1 capacity_assigned_only_after_request_decodes
        [of ?d1 "Other ''json: cannot unmarshal value into Go value of type struct''" sample_codec sample_volume]
    by blast
  have b: "UnmarshalJSON sample_codec ?d2 sample_volume =
             (sample_volume\<lparr>CreateVolumeRequest := ?req\<rparr>,
              Some (Status Internal (''failed to unmarshal create request: '' @ Error (Other ''EOF''))))
         \<and> capacityBytes (fst (UnmarshalJSON sample_codec ?d2 sample_volume)) = capacityBytes sample_volume"
    using u2 p2 capacity_assigned_only_after_request_decodes
        [of ?d2 "Other ''EOF''" sample_codec sample_volume "\<lparr>CapacityBytes = 5, CreateRequest = None\<rparr>" ?req]
    by simp
  have c: "UnmarshalJSON sample_codec ?d3 sample_volume =
             (sample_volume\<lparr>CreateVolumeRequest := ?req\<lparr>Name := ''v2''\<rparr>, capacityBytes := 5\<rparr>, None)"
    using u3 p3 capacity_assigned_only_after_request_decodes
        [of ?d3 _ sample_codec sample_volume "\<lparr>CapacityBytes = 5, CreateRequest = Some ?raw\<rparr>"
            "?req\<lparr>Name := ''v2''\<rparr>"]
    by simp
  have d: "capacityBytes sample_volume = 1024"
    by (simp add: sample_volume_def)
  show ?thesis
    using b by (simp add: a c d)
qed

section \<open>Saving and loading\<close>

text \<open>
  C3. Let a record with a non-empty info-file path be saved with success, let the file
  be open to reading, and let the protocol codec read back the request that it wrote.
  Then loading a fresh record bound to the same info-file path succeeds, and its
  capacity and its request, hence its creation parameters, are the saved ones.
\<close>

theorem save_then_load_recovers_capacity_and_parameters:
  assumes path: "infoPath v \<noteq> []"
    and saved: "save P fs v = (None, fs')"
    and opens: "fault fs SysOpen (infoPath v) = None"
    and reads: "fault fs SysRead (infoPath v) = None"
    and codec: "\<forall>buf. pb_Marshal P (CreateVolumeRequest v) = Inr buf \<longrightarrow>
                  pb_Unmarshal P buf zero_CreateVolumeRequest = (CreateVolumeRequest v, None)"
  shows "\<exists>v'. load P fs' \<lparr>CreateVolumeRequest = zero_CreateVolumeRequest, capacityBytes = 0,
                          path = p, infoPath = infoPath v\<rparr> = (v', None)
            \<and> capacityBytes v' = capacityBytes v
            \<and> CreateVolumeRequest v' = CreateVolumeRequest v
            \<and> Parameters (CreateVolumeRequest v') = Parameters (CreateVolumeRequest v)"
proof -
  let ?fresh = "\<lparr>CreateVolumeRequest = zero_CreateVolumeRequest, capacityBytes = 0,
                  path = p, infoPath = infoPath v\<rparr>"
  let ?doc = "\<lambda>buf. JObject [(''capacity_bytes'', JInt (sint (capacityBytes v))), (''create_request'', buf)]"
  from saved obtain fs1 buf where
    created: "os_Create fs (infoPath v) = Inr fs1" and
    buf: "pb_Marshal P (CreateVolumeRequest v) = Inr buf" and
    fs': "fs' = fs1\<lparr>nodes := (nodes fs1)(infoPath v \<mapsto> File (Some (?doc buf)))\<rparr>"
    unfolding save_ok_iff by blast
  have faults: "fault fs' = fault fs"
    using os_Create_fault [OF created] by (simp add: fs')
  have opened: "os_Open fs' (infoPath v) = Inr (File (Some (?doc buf)))"
    by (simp add: os_Open_def faults opens) (simp add: fs')
  have decoded: "pb_Unmarshal P buf (CreateVolumeRequest ?fresh) = (CreateVolumeRequest v, None)"
    using codec buf by simp
  have "load P fs' ?fresh = UnmarshalJSON P (?doc buf) ?fresh"
    using path by (simp add: load_def opened Decoder_Decode_def faults reads)
  also have "\<dots> = (?fresh\<lparr>CreateVolumeRequest := CreateVolumeRequest v, capacityBytes := capacityBytes v\<rparr>, None)"
    using decoded by (rule UnmarshalJSON_own_document)
  finally show ?thesis
    by simp
qed

theorem save_then_load_recovers_capacity_and_parameters_witness:
  "infoPath sample_volume \<noteq> []
 \<and> fst (save sample_codec \<lparr>nodes = [''/vol/v1'' \<mapsto> Dir], fault = no_fault\<rparr> sample_volume) = None
 \<and> (\<exists>v'. load sample_codec
            (snd (save sample_codec \<lparr>nodes = [''/vol/v1'' \<mapsto> Dir], fault = no_fault\<rparr> sample_volume))
            \<lparr>CreateVolumeRequest = zero_CreateVolumeRequest, capacityBytes = 0,
             path = ''/vol/v1'', infoPath = ''/vol/v1/.info.json''\<rparr> = (v', None)
          \<and> capacityBytes v' = 1024
          \<and> Parameters (CreateVolumeRequest v') ''type'' = Some ''fast'')"
proof -
  let ?fs = "\<lparr>nodes = [''/vol/v1'' \<mapsto> Dir], fault = no_fault\<rparr>"
  have p: "infoPath sample_volume \<noteq> []" and ip: "infoPath sample_volume = ''/vol/v1/.info.json''"
    by (simp_all add: sample_volume_def)
  have s: "fst (save sample_codec ?fs sample_volume) = None"
    by (simp add: save_def os_Create_def Encoder_Encode_def MarshalJSON_def json_Marshal_def
        sample_codec_def sample_volume_def no_fault_def)
  then have saved: "save sample_codec ?fs sample_volume = (None, snd (save sample_codec ?fs sample_volume))"
    by (metis prod.collapse)
  have f: "fault ?fs SysOpen (infoPath sample_volume) = None"
          "fault ?fs SysRead (infoPath sample_volume) = None"
    by (simp_all add: no_fault_def)
  have c: "\<forall>buf. pb_Marshal sample_codec (CreateVolumeRequest sample_volume) = Inr buf \<longrightarrow>
             pb_Unmarshal sample_codec buf zero_CreateVolumeRequest = (CreateVolumeRequest sample_volume, None)"
    by (auto simp: sample_codec_def sample_volume_def sample_Unmarshal_def zero_CreateVolumeRequest_def)
  show ?thesis
    using p s save_then_load_recovers_capacity_and_parameters [OF p saved f c, of "''/vol/v1''"]
    unfolding ip by (auto simp: sample_volume_def)
qed

section \<open>Looking up a volume\<close>

lemma os_Stat_missing:
  "nodes fs name = None \<Longrightarrow> fault fs SysStat name = None \<Longrightarrow>
     os_Stat fs name = Some (PathError ''stat'' name ENOENT)"
  by (simp add: os_Stat_def)

lemma fileExists_cases:
  "fileExists fs name =
     (case os_Stat fs name of
        None \<Rightarrow> (True, None)
      | Some err \<Rightarrow> if os_IsNotExist err then (False, None) else (False, Some err))"
  by (simp add: fileExists_def)

text \<open>
  C4, as amended. \<^verbatim>\<open>getVolume\<close> fails with \<open>NotFound\<close>, naming the path, when the
  directory \<open>join volumeRoot identifier\<close> does not exist, and when the directory exists
  but the metadata file in it does not. For any other failure of \<^verbatim>\<open>stat\<close> in these
  checks it fails with \<open>NotFound\<close> as well, and the message is the path followed by
  the text of the failure.
\<close>

theorem getVolume_fails_with_NotFound_on_any_stat_failure:
  "(os_Stat fs (path_Join [vol s, idOrName]) = Some err \<and> os_IsNotExist err \<longrightarrow>
      getVolume P fs s idOrName = Inl (Status NotFound (path_Join [vol s, idOrName])))
 \<and> (os_Stat fs (path_Join [vol s, idOrName]) = None
      \<and> os_Stat fs (path_Join [path_Join [vol s, idOrName], infoFileName]) = Some err
      \<and> os_IsNotExist err \<longrightarrow>
      getVolume P fs s idOrName =
        Inl (Status NotFound (path_Join [path_Join [vol s, idOrName], infoFileName])))
 \<and> (os_Stat fs (path_Join [vol s, idOrName]) = Some err \<and> \<not> os_IsNotExist err \<longrightarrow>
      getVolume P fs s idOrName =
        Inl (Status NotFound (path_Join [vol s, idOrName] @ '': '' @ Error err)))
 \<and> (os_Stat fs (path_Join [vol s, idOrName]) = None
      \<and> os_Stat fs (path_Join [path_Join [vol s, idOrName], infoFileName]) = Some err
      \<and> \<not> os_IsNotExist err \<longrightarrow>
      getVolume P fs s idOrName =
        Inl (Status NotFound
          (path_Join [path_Join [vol s, idOrName], infoFileName] @ '': '' @ Error err)))"
  by (simp add: getVolume_def Let_def fileExists_cases)

theorem getVolume_fails_with_NotFound_on_any_stat_failure_witness:
  "os_Stat \<lparr>nodes = Map.empty, fault = no_fault\<rparr> ''/vol/v1'' = Some (PathError ''stat'' ''/vol/v1'' ENOENT)
 \<and> getVolume sample_codec \<lparr>nodes = Map.empty, fault = no_fault\<rparr> sample_service ''v1''
     = Inl (Status NotFound ''/vol/v1'')
 \<and> os_Stat \<lparr>nodes = [''/vol/v1'' \<mapsto> Dir], fault = no_fault\<rparr> ''/vol/v1'' = None
 \<and> os_Stat \<lparr>nodes = [''/vol/v1'' \<mapsto> Dir], fault = no_fault\<rparr> ''/vol/v1/.info.json''
     = Some (PathError ''stat'' ''/vol/v1/.info.json'' ENOENT)
 \<and> getVolume sample_codec \<lparr>nodes = [''/vol/v1'' \<mapsto> Dir], fault = no_fault\<rparr> sample_service ''v1''
     = Inl (Status NotFound ''/vol/v1/.info.json'')
 \<and> os_Stat \<lparr>nodes = [''/vol/v1'' \<mapsto> Dir], fault = fault_at SysStat ''/vol/v1'' EACCES\<rparr> ''/vol/v1''
     = Some (PathError ''stat'' ''/vol/v1'' EACCES)
 \<and> getVolume sample_codec \<lparr>nodes = [''/vol/v1'' \<mapsto> Dir], fault = fault_at SysStat ''/vol/v1'' EACCES\<rparr>
       sample_service ''v1''
     = Inl (Status NotFound ''/vol/v1: stat /vol/v1: permission denied'')
 \<and> os_Stat \<lparr>nodes = [''/vol/v1'' \<mapsto> Dir], fault = fault_at SysStat ''/vol/v1/.info.json'' EIO\<rparr>
       ''/vol/v1/.info.json''
     = Some (PathError ''stat'' ''/vol/v1/.info.json'' EIO)
 \<and> getVolume sample_codec
       \<lparr>nodes = [''/vol/v1'' \<mapsto> Dir], fault = fault_at SysStat ''/vol/v1/.info.json'' EIO\<rparr>
       sample_service ''v1''
     = Inl (Status NotFound ''/vol/v1/.info.json: stat /vol/v1/.info.json: input/output error'')"
proof -
  let ?fs1 = "\<lparr>nodes = Map.empty, fault = no_fault\<rparr>"
  let ?fs2 = "\<lparr>nodes = [''/vol/v1'' \<mapsto> Dir], fault = no_fault\<rparr>"
  let ?fs3 = "\<lparr>nodes = [''/vol/v1'' \<mapsto> Dir], fault = fault_at SysStat ''/vol/v1'' EACCES\<rparr>"
  let ?fs4 = "\<lparr>nodes = [''/vol/v1'' \<mapsto> Dir], fault = fault_at SysStat ''/vol/v1/.info.json'' EIO\<rparr>"
  have v: "vol sample_service = ''/vol''"
    by (simp add: sample_service_def)
  have s1: "os_Stat ?fs1 ''/vol/v1'' = Some (PathError ''stat'' ''/vol/v1'' ENOENT)"
    by (simp add: os_Stat_def no_fault_def)
  have s2: "os_Stat ?fs2 ''/vol/v1'' = None"
    "os_Stat ?fs2 ''/vol/v1/.info.json'' = Some (PathError ''stat'' ''/vol/v1/.info.json'' ENOENT)"
    by (simp_all add: os_Stat_def no_fault_def)
  have s3: "os_Stat ?fs3 ''/vol/v1'' = Some (PathError ''stat'' ''/vol/v1'' EACCES)"
    by (simp add: os_Stat_def fault_at_def)
  have s4: "os_Stat ?fs4 ''/vol/v1'' = None"
    "os_Stat ?fs4 ''/vol/v1/.info.json'' = Some (PathError ''stat'' ''/vol/v1/.info.json'' EIO)"
    by (simp_all add: os_Stat_def fault_at_def)
  note T = getVolume_fails_with_NotFound_on_any_stat_failure
  have g1: "getVolume sample_codec ?fs1 sample_service ''v1'' = Inl (Status NotFound ''/vol/v1'')"
    using T [of ?fs1 sample_service "''v1''" "PathError ''stat'' ''/vol/v1'' ENOENT" sample_codec]
    by (simp add: v join_vol_v1 s1)
  have g2: "getVolume sample_codec ?fs2 sample_service ''v1'' = Inl (Status NotFound ''/vol/v1/.info.json'')"
    using T [of ?fs2 sample_service "''v1''" "PathError ''stat'' ''/vol/v1/.info.json'' ENOENT" sample_codec]
    by (simp add: v join_vol_v1 join_info_v1 s2)
  have g3: "getVolume sample_codec ?fs3 sample_service ''v1''
              = Inl (Status NotFound ''/vol/v1: stat /vol/v1: permission denied'')"
    using T [of ?fs3 sample_service "''v1''" "PathError ''stat'' ''/vol/v1'' EACCES" sample_codec]
    by (simp add: v join_vol_v1 s3)
  have g4: "getVolume sample_codec ?fs4 sample_service ''v1''
              = Inl (Status NotFound ''/vol/v1/.info.json: stat /vol/v1/.info.json: input/output error'')"
    using T [of ?fs4 sample_service "''v1''" "PathError ''stat'' ''/vol/v1/.info.json'' EIO" sample_codec]
    by (simp add: v join_vol_v1 join_info_v1 s4)
  show ?thesis
    by (simp only: s1 s2 s3 s4 g1 g2 g3 g4 simp_thms)
qed

text \<open>
  C4 as stated fails: when \<^verbatim>\<open>stat\<close> of the directory is denied, the error of
  \<^verbatim>\<open>getVolume\<close> has the code \<open>NotFound\<close>, not \<open>Internal\<close>.
\<close>

theorem getVolume_other_stat_failure_is_Internal_counterexample:
  "os_Stat \<lparr>nodes = Map.empty, fault = fault_at SysStat ''/vol/v1'' EACCES\<rparr> ''/vol/v1''
     = Some (PathError ''stat'' ''/vol/v1'' EACCES)
 \<and> \<not> os_IsNotExist (PathError ''stat'' ''/vol/v1'' EACCES)
 \<and> getVolume sample_codec \<lparr>nodes = Map.empty, fault = fault_at SysStat ''/vol/v1'' EACCES\<rparr>
       sample_service ''v1''
     = Inl (Status NotFound ''/vol/v1: stat /vol/v1: permission denied'')"
proof -
  let ?fs = "\<lparr>nodes = Map.empty, fault = fault_at SysStat ''/vol/v1'' EACCES\<rparr>"
  have s: "os_Stat ?fs ''/vol/v1'' = Some (PathError ''stat'' ''/vol/v1'' EACCES)"
    by (simp add: os_Stat_def fault_at_def)
  show ?thesis
    by (simp add: getVolume_def Let_def fileExists_cases sample_service_def join_vol_v1 s)
qed

section \<open>Failures of saving and loading\<close>

text \<open>
  An empty info-file path and a failure to create or to open the file are wrapped in
  an \<open>Internal\<close> status, and so is every error of \<^verbatim>\<open>UnmarshalJSON\<close>.
\<close>

lemma save_load_wrapped_failures:
  "(infoPath v = [] \<longrightarrow>
      fst (save P fs v) = Some (Status Internal ''failed to create volume info file: empty path''))
 \<and> (infoPath v \<noteq> [] \<and> os_Create fs (infoPath v) = Inl err \<longrightarrow>
      fst (save P fs v) =
        Some (Status Internal (''failed to create volume info file: '' @ infoPath v @ '': '' @ Error err)))
 \<and> (infoPath v = [] \<longrightarrow>
      snd (load P fs v) = Some (Status Internal ''failed to load volume info file: empty path''))
 \<and> (infoPath v \<noteq> [] \<and> os_Open fs (infoPath v) = Inl err \<longrightarrow>
      snd (load P fs v) =
        Some (Status Internal (''failed to open volume info file: '' @ infoPath v @ '': '' @ Error err)))
 \<and> (infoPath v \<noteq> [] \<and> os_Open fs (infoPath v) = Inr (File (Some doc)) \<and> doc \<noteq> JNull
      \<and> fault fs SysRead (infoPath v) = None \<longrightarrow>
      load P fs v = UnmarshalJSON P doc v)"
  by (cases doc) (simp_all add: save_def load_def Decoder_Decode_def)

lemma UnmarshalJSON_error_is_Internal:
  "snd (UnmarshalJSON P doc v) = Some err \<Longrightarrow> \<exists>m. err = Status Internal m"
  by (auto simp: UnmarshalJSON_def split: sum.splits prod.splits option.splits)

text \<open>
  C5. The errors of the encoder and of the decoder are returned as they are: when the
  file is created but the write fails, \<^verbatim>\<open>save\<close> returns the path error of the write,
  and when the file spells no JSON document, \<^verbatim>\<open>load\<close> returns the syntax error of
  the decoder. Neither is a status with the code \<open>Internal\<close>.
\<close>

theorem save_and_load_return_encoder_and_decoder_errors_unwrapped:
  "save sample_codec
     \<lparr>nodes = [''/vol/v1'' \<mapsto> Dir], fault = fault_at SysWrite ''/vol/v1/.info.json'' ENOSPC\<rparr>
     sample_volume
   = (Some (PathError ''write'' ''/vol/v1/.info.json'' ENOSPC),
      \<lparr>nodes = [''/vol/v1'' \<mapsto> Dir, ''/vol/v1/.info.json'' \<mapsto> File None],
       fault = fault_at SysWrite ''/vol/v1/.info.json'' ENOSPC\<rparr>)
 \<and> load sample_codec
     \<lparr>nodes = [''/vol/v1'' \<mapsto> Dir, ''/vol/v1/.info.json'' \<mapsto> File None], fault = no_fault\<rparr>
     sample_volume
   = (sample_volume, Some (SyntaxError ''invalid character looking for beginning of value''))"
  by (simp add: save_def load_def os_Create_def os_Open_def Encoder_Encode_def Decoder_Decode_def
      MarshalJSON_def json_Marshal_def sample_codec_def sample_volume_def fault_at_def no_fault_def)

end
